theory Spec2Isabelle
  imports Complex_Main
begin

section \<open>Tensors, errors and loops\<close>

text \<open>
  The exceptions the modelled code can raise by itself: \<open>RuntimeError\<close> is what
  \<open>torch.cat\<close> and \<open>torch.vstack\<close> raise on an empty list (or on rows of different
  sizes), \<open>IndexError\<close> a list index out of range, \<open>ValueError\<close> what numpy, the
  \<open>DataLoader\<close> of torch and scikit-learn raise on an argument they refuse (\<open>np.max\<close> of
  an empty selection, a negative sample count, a batch size that is not positive, five
  folds of fewer than five samples).
\<close>

datatype error = RuntimeError | IndexError | ValueError

text \<open>
  A tensor is modelled by its elements in row-major order (the order \<open>torch.flatten\<close>
  produces) and by its autograd status: \<open>requires_grad\<close>, and \<open>grad_leaves\<close>, the
  identifiers of the leaf parameters that a backward pass starting from this tensor
  reaches. A parameter of a network is a leaf: it requires gradients and reaches itself.
  Floating-point numbers are an abstract type \<open>'r\<close> in the training loop.
\<close>

record 'r tensor =
  elems :: "'r list"
  requires_grad :: bool
  grad_leaves :: "nat list"

text \<open>\<open>param.data\<close>: the same elements, cut off from the autograd graph.\<close>

definition data :: "'r tensor \<Rightarrow> 'r tensor" where
  "data t = t\<lparr>requires_grad := False, grad_leaves := []\<rparr>"

text \<open>\<open>torch.flatten\<close>: the elements in row-major order, which is how they are stored.\<close>

definition flatten :: "'r tensor \<Rightarrow> 'r tensor" where
  "flatten t = t"

text \<open>\<open>torch.cat(ts, dim=0)\<close> on one-dimensional tensors; an empty list raises.\<close>

definition cat :: "'r tensor list \<Rightarrow> error + 'r tensor" where
  "cat ts =
     (if ts = [] then Inl RuntimeError
      else Inr \<lparr>elems = concat (map elems ts),
                requires_grad = list_ex requires_grad ts,
                grad_leaves = concat (map grad_leaves ts)\<rparr>)"

text \<open>
  \<open>torch.vstack\<close> on one-dimensional tensors: the matrix whose rows they are. It raises on
  an empty list and on rows of different sizes.
\<close>

definition vstack :: "'r tensor list \<Rightarrow> error + 'r list list" where
  "vstack ts =
     (if ts = [] then Inl RuntimeError
      else if list_all (\<lambda>t. length (elems t) = length (elems (hd ts))) ts
      then Inr (map elems ts)
      else Inl RuntimeError)"

text \<open>\<open>params_to_1D_vector\<close> of main.py.\<close>

definition params_to_1D_vector :: "'r tensor list \<Rightarrow> error + 'r tensor" where
  "params_to_1D_vector model_parameters =
     cat (map (\<lambda>param. flatten (data param)) model_parameters)"

text \<open>
  A \<open>for\<close> loop whose body may raise: the first exception ends the loop. An exception is
  returned with the program state at the raise.
\<close>

fun for_each :: "('i \<Rightarrow> 'st \<Rightarrow> 'e + 'st) \<Rightarrow> 'i list \<Rightarrow> 'st \<Rightarrow> 'e + 'st" where
  "for_each body [] s = Inr s"
| "for_each body (i # is) s =
     (case body i s of Inl e \<Rightarrow> Inl e | Inr s' \<Rightarrow> for_each body is s')"

text \<open>What a run shows of its final state, or the exception that ended it.\<close>

definition observe :: "('st \<Rightarrow> 'o) \<Rightarrow> ('e \<times> 'st) + 'st \<Rightarrow> 'e + 'o" where
  "observe f r = map_sum fst f r"

section \<open>The training loop of main.py\<close>

text \<open>
  The command-line arguments the loop reads: \<open>--ep\<close>, \<open>--batch\<close> and \<open>--sb\<close>. argparse
  converts them with \<open>int\<close> and checks nothing else. \<open>main\<close> hands the batch size to the
  two \<open>DataLoader\<close>s (lines 140 and 142), whose construction raises \<open>ValueError\<close>
  unless it is positive, and does not read it again; the batches they yield are the lists
  \<open>data_train_loader\<close> and \<open>data_test_loader\<close> below.
\<close>

record args =
  ep :: int
  batch :: int
  sb :: int

text \<open>
  The collaborators that are not in the source files (torch, the network of \<open>models\<close>,
  \<open>tree_regularizer\<close>, \<open>decision_tree_utils\<close>, numpy) are parameters of the model:
  \<open>'m\<close> is the state of the network and of its optimizer, \<open>'b\<close> a mini-batch, \<open>'s\<close> a
  surrogate model. \<open>criterion_step\<close> is a forward pass, \<open>nn.MSELoss\<close>, \<open>backward\<close> and
  \<open>optimizer.step\<close>; it returns the updated network and \<open>loss.item()\<close>.
  \<open>criterion_tr_step\<close> is the same with \<open>tr.Tree_Regularizer\<close>, which also receives the
  flattened parameters and the surrogate model; \<open>criterion_tr_eval\<close> is its use under
  \<open>torch.no_grad()\<close> in the test phase. \<open>train_surrogate_model\<close> is
  \<open>tr.train_surrogate_model\<close>: what it does is not in the source files, and it is taken
  to return a model and the losses of its training for every buffer it is given.
\<close>

record ('m, 'b, 's, 'r) collab =
  net1 :: 'm
  data_train_loader :: "'b list"
  data_test_loader :: "'b list"
  model_parameters :: "'m \<Rightarrow> 'r tensor list"
  criterion_step :: "'m \<Rightarrow> 'b \<Rightarrow> 'm \<times> 'r"
  criterion_tr_step :: "'m \<Rightarrow> 'b \<Rightarrow> 'r tensor \<Rightarrow> 's option \<Rightarrow> 'm \<times> 'r"
  criterion_tr_eval :: "'m \<Rightarrow> 'b \<Rightarrow> 'r tensor \<Rightarrow> 's option \<Rightarrow> 'r"
  average_path_length :: "'m \<Rightarrow> 'r"
  train_surrogate_model :: "'r list list \<Rightarrow> 'r list \<Rightarrow> 's \<times> 'r list"
  np_mean :: "'r list \<Rightarrow> 'r"

text \<open>
  The calls the claims are about are recorded in the order they happen: a call of the plain
  criterion, a call of the tree-regularised criterion with the surrogate model it is given,
  and a retraining of the surrogate model, with the epoch number \<open>epoch + 1\<close> under which
  the loop reports it.
\<close>

datatype 's call = Criterion | CriterionTr "'s option" | TrainSurrogate nat

text \<open>The local variables of \<open>main\<close>, under their names.\<close>

record ('m, 's, 'r) state =
  model :: 'm
  surrogate_model :: "'s option"
  surrogate_model_trained :: bool
  input_batch_size_surrogate_training :: int
  input_data_surrogate_training :: "'r tensor list"
  APLs :: "'r list"
  training_loss :: "'r list"
  loss_surrogate_training :: "'r list list"
  running_loss :: "'r list"
  scalars :: "('r \<times> nat) list"
  loss_with_train_data :: "'r list"
  loss_with_test_data :: "'r list"
  calls :: "'s call list"

definition initial :: "('m, 'b, 's, 'r) collab \<Rightarrow> args \<Rightarrow> ('m, 's, 'r) state" where
  "initial env a =
     \<lparr>model = net1 env,
      surrogate_model = None,
      surrogate_model_trained = False,
      input_batch_size_surrogate_training = sb a,
      input_data_surrogate_training = [],
      APLs = [],
      training_loss = [],
      loss_surrogate_training = [],
      running_loss = [],
      scalars = [],
      loss_with_train_data = [],
      loss_with_test_data = [],
      calls = []\<rparr>"

text \<open>One mini-batch of a standard epoch (lines 157 to 174).\<close>

definition train_batch ::
  "('m, 'b, 's, 'r) collab \<Rightarrow> 'b \<Rightarrow> ('m, 's, 'r) state \<Rightarrow>
   (error \<times> ('m, 's, 'r) state) + ('m, 's, 'r) state" where
  "train_batch env b s =
     (case params_to_1D_vector (model_parameters env (model s)) of
        Inl e \<Rightarrow> Inl (e, s)
      | Inr v \<Rightarrow>
          if surrogate_model_trained s then
            (let r = criterion_tr_step env (model s) b v (surrogate_model s)
             in Inr (s\<lparr>model := fst r,
                       running_loss := running_loss s @ [snd r],
                       calls := calls s @ [CriterionTr (surrogate_model s)]\<rparr>))
          else
            (let r = criterion_step env (model s) b
             in Inr (s\<lparr>model := fst r,
                       running_loss := running_loss s @ [snd r],
                       calls := calls s @ [Criterion]\<rparr>)))"

text \<open>One mini-batch of a retrain epoch (lines 208 to 220).\<close>

definition retrain_batch ::
  "('m, 'b, 's, 'r) collab \<Rightarrow> 'b \<Rightarrow> ('m, 's, 'r) state \<Rightarrow>
   (error \<times> ('m, 's, 'r) state) + ('m, 's, 'r) state" where
  "retrain_batch env b s =
     (case params_to_1D_vector (model_parameters env (model s)) of
        Inl e \<Rightarrow> Inl (e, s)
      | Inr v \<Rightarrow>
          (let r = criterion_tr_step env (model s) b v (surrogate_model s)
           in Inr (s\<lparr>model := fst r,
                     running_loss := running_loss s @ [snd r],
                     calls := calls s @ [CriterionTr (surrogate_model s)]\<rparr>)))"

text \<open>The body of the epoch loop (lines 153 to 228).\<close>

definition epoch_body ::
  "('m, 'b, 's, 'r) collab \<Rightarrow> args \<Rightarrow> nat \<Rightarrow> ('m, 's, 'r) state \<Rightarrow>
   (error \<times> ('m, 's, 'r) state) + ('m, 's, 'r) state" where
  "epoch_body env a epoch s0 =
     (let s = s0\<lparr>running_loss := []\<rparr> in
      if input_batch_size_surrogate_training s > 0 then
        (case for_each (train_batch env) (data_train_loader env) s of
           Inl e \<Rightarrow> Inl e
         | Inr s1 \<Rightarrow>
             (case params_to_1D_vector (model_parameters env (model s1)) of
                Inl e \<Rightarrow> Inl (e, s1)
              | Inr v \<Rightarrow>
                  Inr (s1\<lparr>input_data_surrogate_training :=
                             input_data_surrogate_training s1 @ [v],
                           APLs := APLs s1 @ [average_path_length env (model s1)],
                           training_loss :=
                             training_loss s1 @ [np_mean env (running_loss s1)],
                           input_batch_size_surrogate_training :=
                             input_batch_size_surrogate_training s1 - 1\<rparr>)))
      else
        (case vstack (input_data_surrogate_training s) of
           Inl e \<Rightarrow> Inl (e, s)
         | Inr stacked \<Rightarrow>
             (let r = train_surrogate_model env stacked (APLs s);
                  s1 = s\<lparr>surrogate_model := Some (fst r),
                         surrogate_model_trained := True,
                         loss_surrogate_training := loss_surrogate_training s @ [snd r],
                         calls := calls s @ [TrainSurrogate (epoch + 1)]\<rparr>
              in case for_each (retrain_batch env) (data_train_loader env) s1 of
                   Inl e \<Rightarrow> Inl e
                 | Inr s2 \<Rightarrow>
                     Inr (s2\<lparr>input_data_surrogate_training := [],
                              APLs := [],
                              training_loss :=
                                training_loss s2 @ [np_mean env (running_loss s2)],
                              input_batch_size_surrogate_training := sb a\<rparr>))))"

text \<open>
  \<open>for epoch in range(num_epochs)\<close>, from the state \<open>s\<close>; \<open>training_loop\<close> is the whole
  loop (lines 152 to 228), entered in the state that the lines before it leave. The state
  after \<open>e\<close> completed epochs of a longer run is the final state of the run with
  \<open>ep = e\<close>.
\<close>

definition epochs ::
  "('m, 'b, 's, 'r) collab \<Rightarrow> args \<Rightarrow> nat \<Rightarrow> ('m, 's, 'r) state \<Rightarrow>
   (error \<times> ('m, 's, 'r) state) + ('m, 's, 'r) state" where
  "epochs env a n s = for_each (epoch_body env a) [0..<n] s"

definition training_loop ::
  "('m, 'b, 's, 'r) collab \<Rightarrow> args \<Rightarrow>
   (error \<times> ('m, 's, 'r) state) + ('m, 's, 'r) state" where
  "training_loop env a = epochs env a (nat (ep a)) (initial env a)"

text \<open>
  \<open>main\<close> from the hyperparameters to the end of the epoch loop (lines 119 to 228). The
  only statement before the loop that depends on the arguments and can raise is the
  construction of the \<open>DataLoader\<close>s with \<open>batch_size=args.batch\<close>; the loop is reached
  only when the batch size is positive.
\<close>

definition setup_and_train ::
  "('m, 'b, 's, 'r) collab \<Rightarrow> args \<Rightarrow>
   (error \<times> ('m, 's, 'r) state) + ('m, 's, 'r) state" where
  "setup_and_train env a =
     (if batch a \<le> 0 then Inl (ValueError, initial env a) else training_loop env a)"

text \<open>The logging of the training loss (lines 230 and 231).\<close>

definition add_scalar ::
  "nat \<Rightarrow> ('m, 's, 'r) state \<Rightarrow> (error \<times> ('m, 's, 'r) state) + ('m, 's, 'r) state" where
  "add_scalar i s =
     (if i < length (training_loss s)
      then Inr (s\<lparr>scalars := scalars s @ [(training_loss s ! i, i)]\<rparr>)
      else Inl (IndexError, s))"

definition log_training_loss ::
  "args \<Rightarrow> ('m, 's, 'r) state \<Rightarrow> (error \<times> ('m, 's, 'r) state) + ('m, 's, 'r) state" where
  "log_training_loss a s = for_each add_scalar [0..<nat (ep a)] s"

text \<open>
  The test phase (lines 244 to 271): the loss of every batch of both loaders. After each
  loop \<open>torch.cat\<close> joins the predictions, one per batch, and raises when there is none.
\<close>

definition test_train_batch ::
  "('m, 'b, 's, 'r) collab \<Rightarrow> 'b \<Rightarrow> ('m, 's, 'r) state \<Rightarrow>
   (error \<times> ('m, 's, 'r) state) + ('m, 's, 'r) state" where
  "test_train_batch env b s =
     (case params_to_1D_vector (model_parameters env (model s)) of
        Inl e \<Rightarrow> Inl (e, s)
      | Inr v \<Rightarrow>
          Inr (s\<lparr>loss_with_train_data := loss_with_train_data s @
                    [criterion_tr_eval env (model s) b v (surrogate_model s)],
                  calls := calls s @ [CriterionTr (surrogate_model s)]\<rparr>))"

definition test_test_batch ::
  "('m, 'b, 's, 'r) collab \<Rightarrow> 'b \<Rightarrow> ('m, 's, 'r) state \<Rightarrow>
   (error \<times> ('m, 's, 'r) state) + ('m, 's, 'r) state" where
  "test_test_batch env b s =
     (case params_to_1D_vector (model_parameters env (model s)) of
        Inl e \<Rightarrow> Inl (e, s)
      | Inr v \<Rightarrow>
          Inr (s\<lparr>loss_with_test_data := loss_with_test_data s @
                    [criterion_tr_eval env (model s) b v (surrogate_model s)],
                  calls := calls s @ [CriterionTr (surrogate_model s)]\<rparr>))"

definition test_phase ::
  "('m, 'b, 's, 'r) collab \<Rightarrow> ('m, 's, 'r) state \<Rightarrow>
   (error \<times> ('m, 's, 'r) state) + ('m, 's, 'r) state" where
  "test_phase env s =
     (case for_each (test_train_batch env) (data_train_loader env) s of
        Inl e \<Rightarrow> Inl e
      | Inr s1 \<Rightarrow>
          if data_train_loader env = [] then Inl (RuntimeError, s1)
          else
            (case for_each (test_test_batch env) (data_test_loader env) s1 of
               Inl e \<Rightarrow> Inl e
             | Inr s2 \<Rightarrow>
                 if data_test_loader env = [] then Inl (RuntimeError, s2) else Inr s2))"

text \<open>
  \<open>main\<close>, from the hyperparameters to the end of the test phase. Sampling, plots and the
  final decision trees do not touch the state modelled here.
\<close>

definition main ::
  "('m, 'b, 's, 'r) collab \<Rightarrow> args \<Rightarrow>
   (error \<times> ('m, 's, 'r) state) + ('m, 's, 'r) state" where
  "main env a =
     (case setup_and_train env a of
        Inl e \<Rightarrow> Inl e
      | Inr s \<Rightarrow>
          (case log_training_loss a s of
             Inl e \<Rightarrow> Inl e
           | Inr s1 \<Rightarrow> test_phase env s1))"

text \<open>What the calls record: the epochs of the retrainings, the surrogate models given to
  the tree-regularised criterion.\<close>

fun retrain_epochs :: "'s call list \<Rightarrow> nat list" where
  "retrain_epochs [] = []"
| "retrain_epochs (TrainSurrogate n # cs) = n # retrain_epochs cs"
| "retrain_epochs (c # cs) = retrain_epochs cs"

fun tree_loss_calls :: "'s call list \<Rightarrow> 's option list" where
  "tree_loss_calls [] = []"
| "tree_loss_calls (CriterionTr sm # cs) = sm # tree_loss_calls cs"
| "tree_loss_calls (c # cs) = tree_loss_calls cs"

text \<open>
  The network has a fixed architecture: it has parameters, and training changes their
  values, not their number.
\<close>

definition fixed_architecture :: "('m, 'b, 's, 'r) collab \<Rightarrow> bool" where
  "fixed_architecture env =
     ((\<forall>m. model_parameters env m \<noteq> []) \<and>
      (\<forall>m m'. length (concat (map elems (model_parameters env m))) =
               length (concat (map elems (model_parameters env m')))))"

text \<open>
  A small instance, to run the loop on: the network is the number of optimizer steps taken,
  it has one parameter tensor of two elements, the training loader has two batches and the
  test loader one, and a surrogate model is the number of observations it was trained on.
\<close>

definition toy :: "(nat, unit, nat, int) collab" where
  "toy =
     \<lparr>net1 = 0,
      data_train_loader = [(), ()],
      data_test_loader = [()],
      model_parameters =
        (\<lambda>m. [\<lparr>elems = [int m, 0], requires_grad = True, grad_leaves = [0]\<rparr>]),
      criterion_step = (\<lambda>m b. (Suc m, 1)),
      criterion_tr_step = (\<lambda>m b v sm. (Suc m, 2)),
      criterion_tr_eval = (\<lambda>m b v sm. 2),
      average_path_length = (\<lambda>m. int m),
      train_surrogate_model = (\<lambda>X y. (length X, [0])),
      np_mean = (\<lambda>ls. sum_list ls)\<rparr>"

text \<open>
  The invariant of the epoch loop for an interval of at least one: after \<open>q\<close> full cycles
  and \<open>r\<close> further standard epochs.
\<close>

definition loop_inv ::
  "('m, 'b, 's, 'r) collab \<Rightarrow> args \<Rightarrow> nat \<Rightarrow> nat \<Rightarrow> ('m, 's, 'r) state \<Rightarrow> bool" where
  "loop_inv env a q r s =
     (input_batch_size_surrogate_training s = sb a - int r \<and>
      length (input_data_surrogate_training s) = r \<and>
      length (APLs s) = r \<and>
      list_all
        (\<lambda>v. length (elems v) =
             length (concat (map elems (model_parameters env (net1 env)))))
        (input_data_surrogate_training s) \<and>
      length (training_loss s) = q * (nat (sb a) + 1) + r \<and>
      length (loss_surrogate_training s) = q \<and>
      surrogate_model_trained s = (0 < q) \<and>
      (surrogate_model s \<noteq> None) = (0 < q) \<and>
      retrain_epochs (calls s) = map (\<lambda>k. (k + 1) * (nat (sb a) + 1)) [0..<q] \<and>
      None \<notin> set (tree_loss_calls (calls s)))"

text \<open>The number of observations in the buffer.\<close>

definition buffer_length :: "('m, 's, 'r) state \<Rightarrow> nat" where
  "buffer_length s = length (input_data_surrogate_training s)"

section \<open>Pruning and augmentation in utils.py\<close>

text \<open>
  In utils.py numbers are reals: the rounding of floating-point arithmetic is left out, and
  with it the value \<open>nan\<close>. \<open>np.std\<close> is the population standard deviation; \<open>np.max\<close>
  raises on an empty array.
\<close>

definition np_mean_real :: "real list \<Rightarrow> real" where
  "np_mean_real xs = sum_list xs / real (length xs)"

definition np_std :: "real list \<Rightarrow> real" where
  "np_std xs = sqrt (np_mean_real (map (\<lambda>x. (x - np_mean_real xs)\<^sup>2) xs))"

definition np_min :: "real list \<Rightarrow> real" where
  "np_min xs = Min (set xs)"

definition np_max :: "real list \<Rightarrow> error + real" where
  "np_max xs = (if xs = [] then Inl ValueError else Inr (Max (set xs)))"

text \<open>
  A dataset is the list \<open>X\<close> of its rows with the list \<open>y\<close> of their labels. What
  scikit-learn computes is a parameter of the model, and each of its calls may raise:
  \<open>pruning_path\<close> is the \<open>ccp_alphas\<close> of
  \<open>DecisionTreeClassifier(random_state=42).cost_complexity_pruning_path(X, y)\<close>, and
  \<open>fold_scores\<close> the scores (negated squared errors, one per fold) that the call number
  \<open>i\<close> of \<open>cross_val_score\<close> gives for a classifier with the given \<open>ccp_alpha\<close>.
\<close>

record ('x, 'y) sklearn =
  pruning_path :: "'x list \<Rightarrow> 'y list \<Rightarrow> error + real list"
  fold_scores :: "nat \<Rightarrow> real \<Rightarrow> 'x list \<Rightarrow> 'y list \<Rightarrow> error + real list"

text \<open>Fitting a tree raises \<open>ValueError\<close> on a dataset without rows.\<close>

definition cost_complexity_pruning_path ::
  "('x, 'y) sklearn \<Rightarrow> 'x list \<Rightarrow> 'y list \<Rightarrow> error + real list" where
  "cost_complexity_pruning_path sk X y =
     (if X = [] then Inl ValueError else pruning_path sk X y)"

text \<open>\<open>cross_val_score\<close> with \<open>cv=5\<close> raises \<open>ValueError\<close> on fewer than five rows.\<close>

definition cross_val_score ::
  "('x, 'y) sklearn \<Rightarrow> nat \<Rightarrow> real \<Rightarrow> 'x list \<Rightarrow> 'y list \<Rightarrow> error + real list" where
  "cross_val_score sk i ccp_alpha X y =
     (if length X < 5 then Inl ValueError else fold_scores sk i ccp_alpha X y)"

text \<open>
  The loop over the candidates (lines 134 to 137), from the call number \<open>i\<close> on: the first
  call that raises ends it.
\<close>

fun score_loop ::
  "('x, 'y) sklearn \<Rightarrow> 'x list \<Rightarrow> 'y list \<Rightarrow> nat \<Rightarrow> real list \<Rightarrow> real list list \<Rightarrow>
   error + real list list" where
  "score_loop sk X y i [] scores = Inr scores"
| "score_loop sk X y i (ccp_alpha # rest) scores =
     (case cross_val_score sk i ccp_alpha X y of
        Inl e \<Rightarrow> Inl e
      | Inr score \<Rightarrow> score_loop sk X y (Suc i) rest (scores @ [score]))"

text \<open>
  \<open>post_pruning\<close>. \<open>np.mean(scores, 1)\<close> is the mean over the folds of each candidate;
  \<open>ccp_alphas[fold_mse <= ...]\<close> selects by a boolean mask.
\<close>

definition post_pruning ::
  "('x, 'y) sklearn \<Rightarrow> 'x list \<Rightarrow> 'y list \<Rightarrow> error + real" where
  "post_pruning sk X y =
     (case cost_complexity_pruning_path sk X y of
        Inl e \<Rightarrow> Inl e
      | Inr path \<Rightarrow>
          (let ccp_alphas = butlast path in
           if length ccp_alphas \<noteq> 0 then
             (case score_loop sk X y 0 ccp_alphas [] of
                Inl e \<Rightarrow> Inl e
              | Inr scores \<Rightarrow>
                  (let fold_mse = map (\<lambda>score. - np_mean_real score) scores
                   in np_max (map fst
                        (filter (\<lambda>(ccp_alpha, mse). mse \<le> np_min fold_mse + np_std fold_mse)
                           (zip ccp_alphas fold_mse)))))
           else Inr 0))"

text \<open>
  A stand-in for scikit-learn, to run \<open>post_pruning\<close> on. The tree of a single row is a
  leaf, and its path has the one alpha \<open>0\<close>. For the four rows \<open>0, 1, 2, 3\<close> with the
  labels \<open>0, 0, 1, 1\<close> the path has the alphas \<open>0\<close> and \<open>1/2\<close> (one split separates
  the classes, at the cost of the impurity \<open>1/2\<close> of the root); datasets of five rows and
  more get a path of five alphas. The squared error is 1 in every fold for an alpha below
  \<open>1/2\<close> and 3 in every fold from there on.
\<close>

definition sk_toy :: "(nat, nat) sklearn" where
  "sk_toy =
     \<lparr>pruning_path =
        (\<lambda>X y. if length X < 2 then Inr [0]
               else if length X < 5 then Inr [0, 1 / 2]
               else Inr [0, 1 / 4, 1 / 2, 3 / 4, 1]),
      fold_scores =
        (\<lambda>i ccp_alpha X y.
           if ccp_alpha < 1 / 2 then Inr [- 1, - 1, - 1, - 1, - 1]
           else Inr [- 3, - 3, - 3, - 3, - 3])\<rparr>"

text \<open>
  The network class is not in the source files; its methods are parameters. A network
  object is a value of type \<open>'n\<close>, and \<open>'p\<close> is what the attribute
  \<open>get_parameter_vector\<close> of an object evaluates to. \<open>set_feed_forward_parameters\<close>
  stands for the assignments \<open>param.data = ...\<close> to the parameters of
  \<open>feed_forward\<close>, in their order.
\<close>

record ('n, 'x, 'p) net_class =
  vector_to_parameters :: "'n \<Rightarrow> real list \<Rightarrow> 'n"
  compute_APL :: "'n \<Rightarrow> 'x \<Rightarrow> real"
  eval_mode :: "'n \<Rightarrow> 'n"
  feed_forward_parameters :: "'n \<Rightarrow> real list list"
  set_feed_forward_parameters :: "'n \<Rightarrow> real list list \<Rightarrow> 'n"
  get_parameter_vector :: "'n \<Rightarrow> 'p"

text \<open>
  Objects are mutated through references, so the network objects live in a store, a list
  indexed by addresses; a reference is an address below the length of the store.
  \<open>copy.deepcopy\<close> puts a copy of the object at a new address.
\<close>

definition deepcopy :: "'n list \<Rightarrow> nat \<Rightarrow> 'n list \<times> nat" where
  "deepcopy h a = (h @ [h ! a], length h)"

text \<open>\<open>samples @ parameters\<close>: the product of two matrices given by their rows.\<close>

definition row_matmul :: "real list \<Rightarrow> real list list \<Rightarrow> real list" where
  "row_matmul w P =
     map (\<lambda>c. sum_list (map (\<lambda>(wj, row). wj * row ! c) (zip w P))) [0..<length (hd P)]"

definition matmul :: "real list list \<Rightarrow> real list list \<Rightarrow> real list list" where
  "matmul S P = map (\<lambda>w. row_matmul w P) S"

text \<open>
  The loop of \<open>augment_data_with_dirichlet\<close> (lines 279 to 284), on the object at the
  address \<open>model'\<close> (the argument \<open>model\<close>).
\<close>

fun evaluate_rows ::
  "('n, 'x, 'p) net_class \<Rightarrow> 'x \<Rightarrow> nat \<Rightarrow> real list list \<Rightarrow>
   'n list \<times> real list list \<times> real list \<Rightarrow> 'n list \<times> real list list \<times> real list" where
  "evaluate_rows cls X_train model' [] acc = acc"
| "evaluate_rows cls X_train model' (param # rest) (h, parameters_new, APLs_new) =
     (let h' = h[model' := vector_to_parameters cls (h ! model') param];
          APL = compute_APL cls (h' ! model') X_train
      in evaluate_rows cls X_train model' rest
           (h', parameters_new @ [param], APLs_new @ [APL]))"

text \<open>
  \<open>augment_data_with_dirichlet\<close>. \<open>dirichlet\<close> is \<open>np.random.dirichlet\<close>; numpy raises
  on a negative number of samples, and \<open>torch.vstack\<close> on an empty list of observations
  or on observations of different lengths. The result is the store after the call with
  the two lists returned.
\<close>

definition augment_data_with_dirichlet ::
  "('n, 'x, 'p) net_class \<Rightarrow> (int list \<Rightarrow> nat \<Rightarrow> real list list) \<Rightarrow> 'x \<Rightarrow>
   real tensor list \<Rightarrow> nat \<Rightarrow> int \<Rightarrow> 'n list \<Rightarrow>
   error + ('n list \<times> real list list \<times> real list)" where
  "augment_data_with_dirichlet cls dirichlet X_train parameters model' num_new_samples h =
     (let alpha = replicate (length parameters) 1 in
      if num_new_samples < 0 then Inl ValueError
      else
        (let samples = dirichlet alpha (nat num_new_samples) in
         case vstack parameters of
           Inl e \<Rightarrow> Inl e
         | Inr stacked \<Rightarrow>
             (let parameters' = matmul samples stacked;
                  h1 = h[model' := eval_mode cls (h ! model')]
              in Inr (evaluate_rows cls X_train model' parameters' (h1, [], [])))))"

text \<open>
  One round of \<open>augment_data_with_gaussian\<close> (lines 321 to 334). \<open>normal\<close> is
  \<open>np.random.normal\<close>, given the number of the round and of the parameter.
\<close>

definition gaussian_round ::
  "('n, 'x, 'p) net_class \<Rightarrow> (nat \<Rightarrow> nat \<Rightarrow> real list \<Rightarrow> real list \<Rightarrow> real list) \<Rightarrow> 'x \<Rightarrow>
   nat \<Rightarrow> nat \<Rightarrow> 'n list \<times> 'p list \<times> real list \<Rightarrow> 'n list \<times> 'p list \<times> real list" where
  "gaussian_round cls normal X_train model' i acc =
     (case acc of (h, parameters, APLs') \<Rightarrow>
       (let (h1, model_copy) = deepcopy h model';
            h2 = h1[model_copy := eval_mode cls (h1 ! model_copy)];
            params = feed_forward_parameters cls (h2 ! model_copy);
            augmented = map (\<lambda>(j, param). normal i j param (map (\<lambda>x. 0.1 * \<bar>x\<bar>) param))
                          (zip [0..<length params] params);
            h3 = h2[model_copy := set_feed_forward_parameters cls (h2 ! model_copy) augmented]
        in (h3, parameters @ [get_parameter_vector cls (h3 ! model_copy)],
            APLs' @ [compute_APL cls (h3 ! model_copy) X_train])))"

definition augment_data_with_gaussian ::
  "('n, 'x, 'p) net_class \<Rightarrow> (nat \<Rightarrow> nat \<Rightarrow> real list \<Rightarrow> real list \<Rightarrow> real list) \<Rightarrow> 'x \<Rightarrow>
   nat \<Rightarrow> int \<Rightarrow> 'n list \<Rightarrow> 'n list \<times> 'p list \<times> real list" where
  "augment_data_with_gaussian cls normal X_train model' size' h =
     foldl (\<lambda>acc i. gaussian_round cls normal X_train model' i acc) (h, [], []) [0..<nat size']"

text \<open>
  Modelled from the spec: the methods of the network class, which is missing from the
  source files. A network is its parameter vector and its mode. Restoring writes the whole
  vector into the parameters (section 4.1), the complexity proxy is a non-negative number
  that depends on the parameters only (section 4.2; here the sum of their absolute values
  stands for it), and \<open>eval\<close> changes the mode, not the parameters.
\<close>

record net =
  weights :: "real list"
  training :: bool

definition net_spec :: "(net, unit, real list) net_class" where
  "net_spec =
     \<lparr>vector_to_parameters = (\<lambda>n v. n\<lparr>weights := v\<rparr>),
      compute_APL = (\<lambda>n X. sum_list (map abs (weights n))),
      eval_mode = (\<lambda>n. n\<lparr>training := False\<rparr>),
      feed_forward_parameters = (\<lambda>n. [weights n]),
      set_feed_forward_parameters = (\<lambda>n ps. n\<lparr>weights := concat ps\<rparr>),
      get_parameter_vector = weights\<rparr>"

text \<open>A vector as a parameter-vector tensor outside any autograd graph.\<close>

definition vec :: "'r list \<Rightarrow> 'r tensor" where
  "vec xs = \<lparr>elems = xs, requires_grad = False, grad_leaves = []\<rparr>"

section \<open>Properties of the training loop\<close>

lemma for_each_append:
  "for_each body (xs @ ys) s =
     (case for_each body xs s of Inl e \<Rightarrow> Inl e | Inr s' \<Rightarrow> for_each body ys s')"
  by (induction xs arbitrary: s) (auto split: sum.splits)

lemma params_to_1D_vector_eq:
  "ps \<noteq> [] \<Longrightarrow>
   params_to_1D_vector ps =
     Inr \<lparr>elems = concat (map elems ps), requires_grad = False, grad_leaves = []\<rparr>"
  by (induction ps) (auto simp: params_to_1D_vector_def cat_def data_def flatten_def list_ex_iff comp_def)

lemma retrain_epochs_append:
  "retrain_epochs (xs @ ys) = retrain_epochs xs @ retrain_epochs ys"
  by (induction xs rule: retrain_epochs.induct) auto

lemma tree_loss_calls_append:
  "tree_loss_calls (xs @ ys) = tree_loss_calls xs @ tree_loss_calls ys"
  by (induction xs rule: tree_loss_calls.induct) auto

lemma train_batch_step:
  assumes "fixed_architecture env"
  shows "\<exists>m rl. train_batch env b s =
           Inr (s\<lparr>model := m, running_loss := rl,
                  calls := calls s @
                    [if surrogate_model_trained s then CriterionTr (surrogate_model s)
                     else Criterion]\<rparr>)"
proof -
  have ne: "model_parameters env (model s) \<noteq> []"
    using assms by (simp add: fixed_architecture_def)
  show ?thesis
    by (cases "surrogate_model_trained s";
        simp add: train_batch_def params_to_1D_vector_eq [OF ne] Let_def; blast)
qed

lemma retrain_batch_step:
  assumes "fixed_architecture env"
  shows "\<exists>m rl. retrain_batch env b s =
           Inr (s\<lparr>model := m, running_loss := rl,
                  calls := calls s @ [CriterionTr (surrogate_model s)]\<rparr>)"
proof -
  have ne: "model_parameters env (model s) \<noteq> []"
    using assms by (simp add: fixed_architecture_def)
  show ?thesis
    by (simp add: retrain_batch_def params_to_1D_vector_eq [OF ne] Let_def) blast
qed

lemma train_batches:
  assumes "fixed_architecture env"
  shows "\<exists>m rl. for_each (train_batch env) bs s =
           Inr (s\<lparr>model := m, running_loss := rl,
                  calls := calls s @ replicate (length bs)
                    (if surrogate_model_trained s then CriterionTr (surrogate_model s)
                     else Criterion)\<rparr>)"
proof (induction bs arbitrary: s)
  case Nil
  show ?case by (intro exI [of _ "model s"] exI [of _ "running_loss s"]) simp
next
  case (Cons b bs)
  let ?c = "if surrogate_model_trained s then CriterionTr (surrogate_model s) else Criterion"
  from train_batch_step [OF assms, of b s] obtain m1 rl1 where
    s1: "train_batch env b s = Inr (s\<lparr>model := m1, running_loss := rl1, calls := calls s @ [?c]\<rparr>)"
    by blast
  define s' where "s' = s\<lparr>model := m1, running_loss := rl1, calls := calls s @ [?c]\<rparr>"
  from Cons.IH [of s'] obtain m rl where
    r: "for_each (train_batch env) bs s' =
          Inr (s'\<lparr>model := m, running_loss := rl,
                 calls := calls s' @ replicate (length bs)
                   (if surrogate_model_trained s' then CriterionTr (surrogate_model s')
                    else Criterion)\<rparr>)"
    by blast
  have "for_each (train_batch env) (b # bs) s =
          Inr (s\<lparr>model := m, running_loss := rl,
                 calls := calls s @ replicate (length (b # bs)) ?c\<rparr>)"
    using s1 r by (simp add: s'_def replicate_append_same)
  then show ?case by blast
qed

lemma retrain_batches:
  assumes "fixed_architecture env"
  shows "\<exists>m rl. for_each (retrain_batch env) bs s =
           Inr (s\<lparr>model := m, running_loss := rl,
                  calls := calls s @ replicate (length bs) (CriterionTr (surrogate_model s))\<rparr>)"
proof (induction bs arbitrary: s)
  case Nil
  show ?case by (intro exI [of _ "model s"] exI [of _ "running_loss s"]) simp
next
  case (Cons b bs)
  let ?c = "CriterionTr (surrogate_model s)"
  from retrain_batch_step [OF assms, of b s] obtain m1 rl1 where
    s1: "retrain_batch env b s = Inr (s\<lparr>model := m1, running_loss := rl1, calls := calls s @ [?c]\<rparr>)"
    by blast
  define s' where "s' = s\<lparr>model := m1, running_loss := rl1, calls := calls s @ [?c]\<rparr>"
  from Cons.IH [of s'] obtain m rl where
    r: "for_each (retrain_batch env) bs s' =
          Inr (s'\<lparr>model := m, running_loss := rl,
                 calls := calls s' @ replicate (length bs) (CriterionTr (surrogate_model s'))\<rparr>)"
    by blast
  have "for_each (retrain_batch env) (b # bs) s =
          Inr (s\<lparr>model := m, running_loss := rl,
                 calls := calls s @ replicate (length (b # bs)) ?c\<rparr>)"
    using s1 r by (simp add: s'_def replicate_append_same)
  then show ?case by blast
qed

lemma retrain_epochs_replicate [simp]:
  "retrain_epochs (replicate n Criterion) = []"
  "retrain_epochs (replicate n (CriterionTr sm)) = []"
  by (induction n) auto

lemma tree_loss_calls_replicate [simp]:
  "tree_loss_calls (replicate n Criterion) = []"
  "tree_loss_calls (replicate n (CriterionTr sm)) = replicate n sm"
  by (induction n) auto

text \<open>A standard epoch.\<close>

lemma epoch_body_standard:
  assumes "fixed_architecture env" "0 < input_batch_size_surrogate_training s"
  shows "\<exists>m rl v x l. epoch_body env a epoch s =
           Inr (s\<lparr>model := m, running_loss := rl,
                  calls := calls s @ replicate (length (data_train_loader env))
                    (if surrogate_model_trained s then CriterionTr (surrogate_model s)
                     else Criterion),
                  input_data_surrogate_training := input_data_surrogate_training s @ [v],
                  APLs := APLs s @ [x],
                  training_loss := training_loss s @ [l],
                  input_batch_size_surrogate_training :=
                    input_batch_size_surrogate_training s - 1\<rparr>) \<and>
           length (elems v) = length (concat (map elems (model_parameters env (net1 env))))"
proof -
  let ?s = "s\<lparr>running_loss := []\<rparr>"
  from train_batches [OF assms(1), of "data_train_loader env" ?s] obtain m rl where
    r: "for_each (train_batch env) (data_train_loader env) ?s =
          Inr (?s\<lparr>model := m, running_loss := rl,
                 calls := calls ?s @ replicate (length (data_train_loader env))
                   (if surrogate_model_trained ?s then CriterionTr (surrogate_model ?s)
                    else Criterion)\<rparr>)"
    by blast
  have ne: "model_parameters env m \<noteq> []"
    using assms(1) by (simp add: fixed_architecture_def)
  have len: "length (concat (map elems (model_parameters env m))) =
             length (concat (map elems (model_parameters env (net1 env))))"
    using assms(1) unfolding fixed_architecture_def by blast
  show ?thesis
    apply (rule exI [of _ m], rule exI [of _ rl])
    apply (rule exI [of _ "\<lparr>elems = concat (map elems (model_parameters env m)),
                             requires_grad = False, grad_leaves = []\<rparr>"])
    apply (rule exI [of _ "average_path_length env m"], rule exI [of _ "np_mean env rl"])
    using assms(2) r len
    by (simp add: epoch_body_def Let_def params_to_1D_vector_eq [OF ne])
qed

text \<open>A retrain epoch.\<close>

lemma epoch_body_retrain:
  assumes "fixed_architecture env" "\<not> 0 < input_batch_size_surrogate_training s"
    and "input_data_surrogate_training s \<noteq> []"
    and "list_all (\<lambda>v. length (elems v) = d) (input_data_surrogate_training s)"
  shows "\<exists>m rl sm srl l. epoch_body env a epoch s =
           Inr (s\<lparr>model := m, running_loss := rl,
                  surrogate_model := Some sm,
                  surrogate_model_trained := True,
                  loss_surrogate_training := loss_surrogate_training s @ [srl],
                  calls := calls s @ [TrainSurrogate (epoch + 1)] @
                    replicate (length (data_train_loader env)) (CriterionTr (Some sm)),
                  input_data_surrogate_training := [],
                  APLs := [],
                  training_loss := training_loss s @ [l],
                  input_batch_size_surrogate_training := sb a\<rparr>)"
proof -
  let ?s = "s\<lparr>running_loss := []\<rparr>"
  let ?r = "train_surrogate_model env (map elems (input_data_surrogate_training s)) (APLs s)"
  let ?s1 = "?s\<lparr>surrogate_model := Some (fst ?r),
                  surrogate_model_trained := True,
                  loss_surrogate_training := loss_surrogate_training ?s @ [snd ?r],
                  calls := calls ?s @ [TrainSurrogate (epoch + 1)]\<rparr>"
  have vs: "vstack (input_data_surrogate_training s) =
              Inr (map elems (input_data_surrogate_training s))"
    using assms(3,4) by (cases "input_data_surrogate_training s") (auto simp: vstack_def list_all_iff)
  from retrain_batches [OF assms(1), of "data_train_loader env" ?s1] obtain m rl where
    r: "for_each (retrain_batch env) (data_train_loader env) ?s1 =
          Inr (?s1\<lparr>model := m, running_loss := rl,
                 calls := calls ?s1 @ replicate (length (data_train_loader env))
                   (CriterionTr (surrogate_model ?s1))\<rparr>)"
    by blast
  show ?thesis
    apply (rule exI [of _ m], rule exI [of _ rl])
    apply (rule exI [of _ "fst ?r"], rule exI [of _ "snd ?r"], rule exI [of _ "np_mean env rl"])
    using assms(2) r vs
    by (simp add: epoch_body_def Let_def)
qed

lemma epochs_Suc:
  "epochs env a (Suc e) s =
     (case epochs env a e s of Inl x \<Rightarrow> Inl x | Inr s' \<Rightarrow> epoch_body env a e s')"
  by (simp add: epochs_def for_each_append split: sum.splits)

lemma loop_inv_initial: "loop_inv env a 0 0 (initial env a)"
  by (simp add: loop_inv_def initial_def)

lemma loop_inv_standard:
  assumes "loop_inv env a q r s" "r < nat (sb a)"
    and "length (elems v) = length (concat (map elems (model_parameters env (net1 env))))"
  shows "loop_inv env a q (Suc r)
           (s\<lparr>model := m, running_loss := rl,
              calls := calls s @ replicate k
                (if surrogate_model_trained s then CriterionTr (surrogate_model s)
                 else Criterion),
              input_data_surrogate_training := input_data_surrogate_training s @ [v],
              APLs := APLs s @ [x],
              training_loss := training_loss s @ [l],
              input_batch_size_surrogate_training :=
                input_batch_size_surrogate_training s - 1\<rparr>)"
  using assms
  by (auto simp: loop_inv_def retrain_epochs_append tree_loss_calls_append)

lemma loop_inv_retrain:
  assumes "loop_inv env a q (nat (sb a)) s" "epoch = q * (nat (sb a) + 1) + nat (sb a)"
  shows "loop_inv env a (Suc q) 0
           (s\<lparr>model := m, running_loss := rl,
              surrogate_model := Some sm,
              surrogate_model_trained := True,
              loss_surrogate_training := loss_surrogate_training s @ [srl],
              calls := calls s @ [TrainSurrogate (epoch + 1)] @
                replicate k (CriterionTr (Some sm)),
              input_data_surrogate_training := [],
              APLs := [],
              training_loss := training_loss s @ [l],
              input_batch_size_surrogate_training := sb a\<rparr>)"
  using assms
  by (auto simp: loop_inv_def retrain_epochs_append tree_loss_calls_append)

lemma epochs_inv:
  assumes wf: "fixed_architecture env" and N: "1 \<le> sb a"
  shows "\<exists>s q r. epochs env a e (initial env a) = Inr s \<and>
           e = q * (nat (sb a) + 1) + r \<and> r \<le> nat (sb a) \<and> loop_inv env a q r s"
proof (induction e)
  case 0
  have "epochs env a 0 (initial env a) = Inr (initial env a)"
    by (simp add: epochs_def)
  with loop_inv_initial [of env a] show ?case by fastforce
next
  case (Suc e)
  then obtain s q r where run: "epochs env a e (initial env a) = Inr s"
    and e: "e = q * (nat (sb a) + 1) + r" and r: "r \<le> nat (sb a)"
    and inv: "loop_inv env a q r s"
    by blast
  have cd: "input_batch_size_surrogate_training s = sb a - int r"
    and len: "length (input_data_surrogate_training s) = r"
    and rows: "list_all (\<lambda>v. length (elems v) =
                 length (concat (map elems (model_parameters env (net1 env)))))
                 (input_data_surrogate_training s)"
    using inv by (simp_all add: loop_inv_def)
  show ?case
  proof (cases "r < nat (sb a)")
    case True
    then have pos: "0 < input_batch_size_surrogate_training s"
      using cd by linarith
    from epoch_body_standard [OF wf pos, of a e] obtain m rl v x l where
      step: "epoch_body env a e s =
           Inr (s\<lparr>model := m, running_loss := rl,
                  calls := calls s @ replicate (length (data_train_loader env))
                    (if surrogate_model_trained s then CriterionTr (surrogate_model s)
                     else Criterion),
                  input_data_surrogate_training := input_data_surrogate_training s @ [v],
                  APLs := APLs s @ [x],
                  training_loss := training_loss s @ [l],
                  input_batch_size_surrogate_training :=
                    input_batch_size_surrogate_training s - 1\<rparr>)"
      and v: "length (elems v) = length (concat (map elems (model_parameters env (net1 env))))"
      by blast
    have "Suc e = q * (nat (sb a) + 1) + Suc r" "Suc r \<le> nat (sb a)"
      using e True by simp_all
    with loop_inv_standard [OF inv True v] step run show ?thesis
      unfolding epochs_Suc by fastforce
  next
    case False
    with r have rN: "r = nat (sb a)" by simp
    then have npos: "\<not> 0 < input_batch_size_surrogate_training s"
      using cd N by simp
    have ne: "input_data_surrogate_training s \<noteq> []"
      using len rN N by auto
    from epoch_body_retrain [OF wf npos ne rows, of a e] obtain m rl sm srl l where
      step: "epoch_body env a e s =
           Inr (s\<lparr>model := m, running_loss := rl,
                  surrogate_model := Some sm,
                  surrogate_model_trained := True,
                  loss_surrogate_training := loss_surrogate_training s @ [srl],
                  calls := calls s @ [TrainSurrogate (e + 1)] @
                    replicate (length (data_train_loader env)) (CriterionTr (Some sm)),
                  input_data_surrogate_training := [],
                  APLs := [],
                  training_loss := training_loss s @ [l],
                  input_batch_size_surrogate_training := sb a\<rparr>)"
      by blast
    have e': "e = q * (nat (sb a) + 1) + nat (sb a)"
      using e rN by simp
    have "Suc e = Suc q * (nat (sb a) + 1) + 0" "(0::nat) \<le> nat (sb a)"
      using e' by simp_all
    with loop_inv_retrain [OF inv [unfolded rN] e'] step run show ?thesis
      unfolding epochs_Suc by fastforce
  qed
qed

lemma epochs_closed_form:
  assumes wf: "fixed_architecture env" and N: "1 \<le> sb a"
  shows "\<exists>s. epochs env a e (initial env a) = Inr s \<and>
           loop_inv env a (e div (nat (sb a) + 1)) (e mod (nat (sb a) + 1)) s"
proof -
  from epochs_inv [OF assms, of e] obtain s q r where
    run: "epochs env a e (initial env a) = Inr s"
    and e: "e = q * (nat (sb a) + 1) + r" and r: "r \<le> nat (sb a)"
    and inv: "loop_inv env a q r s"
    by blast
  define n where "n = nat (sb a) + 1"
  have "e = q * n + r" "r < n"
    using e r by (simp_all add: n_def)
  then have "e div n = q" "e mod n = r"
    by simp_all
  with run inv show ?thesis by (simp add: n_def)
qed

lemma toy_fixed_architecture: "fixed_architecture toy"
  by (simp add: fixed_architecture_def toy_def)

text \<open>What the batch loops leave alone, whether or not they raise.\<close>

lemma train_batches_frame:
  "for_each (train_batch env) bs s = Inr s' \<Longrightarrow>
     surrogate_model s' = surrogate_model s \<and>
     surrogate_model_trained s' = surrogate_model_trained s \<and>
     training_loss s' = training_loss s"
proof (induction bs arbitrary: s)
  case Nil
  then show ?case by simp
next
  case (Cons b bs)
  then obtain s1 where 1: "train_batch env b s = Inr s1"
    and 2: "for_each (train_batch env) bs s1 = Inr s'"
    by (auto split: sum.splits)
  from 1 have "surrogate_model s1 = surrogate_model s \<and>
     surrogate_model_trained s1 = surrogate_model_trained s \<and>
     training_loss s1 = training_loss s"
    by (auto simp: train_batch_def Let_def split: sum.splits if_splits)
  with Cons.IH [OF 2] show ?case by simp
qed

lemma retrain_batches_frame:
  "for_each (retrain_batch env) bs s = Inr s' \<Longrightarrow>
     surrogate_model s' = surrogate_model s \<and>
     surrogate_model_trained s' = surrogate_model_trained s \<and>
     training_loss s' = training_loss s"
proof (induction bs arbitrary: s)
  case Nil
  then show ?case by simp
next
  case (Cons b bs)
  then obtain s1 where 1: "retrain_batch env b s = Inr s1"
    and 2: "for_each (retrain_batch env) bs s1 = Inr s'"
    by (auto split: sum.splits)
  from 1 have "surrogate_model s1 = surrogate_model s \<and>
     surrogate_model_trained s1 = surrogate_model_trained s \<and>
     training_loss s1 = training_loss s"
    by (auto simp: retrain_batch_def Let_def split: sum.splits)
  with Cons.IH [OF 2] show ?case by simp
qed

lemma epoch_body_training_loss:
  assumes "epoch_body env a epoch s = Inr s'"
  shows "length (training_loss s') = Suc (length (training_loss s))"
proof (cases "0 < input_batch_size_surrogate_training s")
  case True
  with assms obtain s1 where
    "for_each (train_batch env) (data_train_loader env) (s\<lparr>running_loss := []\<rparr>) = Inr s1"
    and "length (training_loss s') = Suc (length (training_loss s1))"
    by (auto simp: epoch_body_def Let_def split: sum.splits)
  with train_batches_frame [of env _ "s\<lparr>running_loss := []\<rparr>" s1] show ?thesis by simp
next
  case False
  with assms obtain s0 s2 where
    "for_each (retrain_batch env) (data_train_loader env) s0 = Inr s2"
    and "training_loss s0 = training_loss s"
    and "length (training_loss s') = Suc (length (training_loss s2))"
    by (auto simp: epoch_body_def Let_def split: sum.splits)
  with retrain_batches_frame [of env _ s0 s2] show ?thesis by simp
qed

lemma epoch_body_flush:
  assumes "epoch_body env a epoch s = Inr s'" "\<not> 0 < input_batch_size_surrogate_training s"
  shows "input_data_surrogate_training s' = [] \<and> APLs s' = []"
  using assms by (auto simp: epoch_body_def Let_def split: sum.splits)

lemma epoch_body_surrogate:
  assumes "epoch_body env a epoch s = Inr s'"
  shows "(surrogate_model_trained s \<longrightarrow> surrogate_model_trained s') \<and>
         (surrogate_model s \<noteq> None \<longrightarrow> surrogate_model s' \<noteq> None)"
proof (cases "0 < input_batch_size_surrogate_training s")
  case True
  with assms obtain s1 where
    "for_each (train_batch env) (data_train_loader env) (s\<lparr>running_loss := []\<rparr>) = Inr s1"
    and "surrogate_model s' = surrogate_model s1"
    and "surrogate_model_trained s' = surrogate_model_trained s1"
    by (auto simp: epoch_body_def Let_def split: sum.splits)
  with train_batches_frame [of env _ "s\<lparr>running_loss := []\<rparr>" s1] show ?thesis by simp
next
  case False
  with assms obtain s0 s2 where
    "for_each (retrain_batch env) (data_train_loader env) s0 = Inr s2"
    and "surrogate_model_trained s0" "surrogate_model s0 \<noteq> None"
    and "surrogate_model s' = surrogate_model s2"
    and "surrogate_model_trained s' = surrogate_model_trained s2"
    by (auto simp: epoch_body_def Let_def split: sum.splits)
  with retrain_batches_frame [of env _ s0 s2] show ?thesis by simp
qed

lemma epoch_range_surrogate:
  "for_each (epoch_body env a) es s = Inr s' \<Longrightarrow>
     (surrogate_model_trained s \<longrightarrow> surrogate_model_trained s') \<and>
     (surrogate_model s \<noteq> None \<longrightarrow> surrogate_model s' \<noteq> None)"
proof (induction es arbitrary: s)
  case Nil
  then show ?case by simp
next
  case (Cons e es)
  then obtain s1 where 1: "epoch_body env a e s = Inr s1"
    and 2: "for_each (epoch_body env a) es s1 = Inr s'"
    by (auto split: sum.splits)
  from epoch_body_surrogate [OF 1] Cons.IH [OF 2] show ?case by blast
qed

lemma epochs_le:
  assumes "i \<le> j" "epochs env a i s = Inr si" "epochs env a j s = Inr sj"
  shows "for_each (epoch_body env a) [i..<j] si = Inr sj"
proof -
  have "[0..<j] = [0..<i] @ [i..<j]"
    using assms(1) by (metis le_add_diff_inverse upt_add_eq_append zero_le)
  with assms(2,3) show ?thesis
    by (simp add: epochs_def for_each_append)
qed

lemma add_scalar_in_range:
  "i < length (training_loss s) \<Longrightarrow>
     add_scalar i s = Inr (s\<lparr>scalars := scalars s @ [(training_loss s ! i, i)]\<rparr>)"
  by (simp add: add_scalar_def)

lemma add_scalars:
  "n \<le> length (training_loss s) \<Longrightarrow>
     \<exists>s'. for_each add_scalar [0..<n] s = Inr s' \<and> training_loss s' = training_loss s"
proof (induction n)
  case 0
  then show ?case by simp
next
  case (Suc n)
  then obtain s1 where "for_each add_scalar [0..<n] s = Inr s1"
    and "training_loss s1 = training_loss s"
    by auto
  with Suc.prems show ?case
    by (simp add: for_each_append add_scalar_in_range)
qed

text \<open>
  The buffer after five epochs of a run with interval five: it holds five observations,
  which is neither less than the interval nor five modulo five.
\<close>

theorem buffer_counterexample:
  "observe buffer_length (training_loop toy \<lparr>ep = 5, batch = 100, sb = 5\<rparr>) = Inr 5 \<and>
   \<not> (5::nat) < 5 \<and> (5::nat) \<noteq> 5 mod 5"
proof -
  have "observe buffer_length (training_loop toy \<lparr>ep = 5, batch = 100, sb = 5\<rparr>) = Inr 5"
    by code_simp
  then show ?thesis by simp
qed

text \<open>
  Claim C1, as the code has it. For an interval \<open>N\<close> of at least one, the run of any number
  of epochs completes, and then the observation buffer (the parameter vectors and, of the
  same length, the APL values) holds as many observations as epochs were completed since
  the last retrain epoch, or since the start when there was none. That number is the epoch
  count modulo \<open>N + 1\<close>, since a cycle is \<open>N\<close> standard epochs and one retrain epoch; it
  is at most \<open>N\<close>. A retrain epoch leaves both lists empty.
\<close>

theorem buffer_length_cycle:
  assumes "fixed_architecture env" "1 \<le> sb a"
  shows "(\<exists>s. training_loop env a = Inr s \<and>
            length (input_data_surrogate_training s) = nat (ep a) mod (nat (sb a) + 1) \<and>
            nat (ep a) =
              (if retrain_epochs (calls s) = [] then 0 else last (retrain_epochs (calls s))) +
              length (input_data_surrogate_training s) \<and>
            length (APLs s) = length (input_data_surrogate_training s) \<and>
            length (input_data_surrogate_training s) \<le> nat (sb a)) \<and>
         (\<forall>epoch s s'. \<not> 0 < input_batch_size_surrogate_training s \<longrightarrow>
            epoch_body env a epoch s = Inr s' \<longrightarrow>
            input_data_surrogate_training s' = [] \<and> APLs s' = [])"
proof -
  define n where "n = nat (sb a) + 1"
  define e where "e = nat (ep a)"
  from epochs_closed_form [OF assms, of e] obtain s where
    run: "training_loop env a = Inr s" and inv: "loop_inv env a (e div n) (e mod n) s"
    by (auto simp: training_loop_def e_def n_def)
  have len: "length (input_data_surrogate_training s) = e mod n"
    and apl: "length (APLs s) = e mod n"
    and re: "retrain_epochs (calls s) = map (\<lambda>k. (k + 1) * n) [0..<e div n]"
    using inv by (simp_all add: loop_inv_def n_def)
  have "e mod n < n" by (simp add: n_def)
  then have le: "e mod n \<le> nat (sb a)" by (simp add: n_def)
  have split: "e = (e div n) * n + e mod n" by simp
  have since: "e = (if retrain_epochs (calls s) = [] then 0 else last (retrain_epochs (calls s))) + e mod n"
  proof (cases "e div n")
    case 0
    then have "retrain_epochs (calls s) = []" using re by simp
    with split 0 show ?thesis by simp
  next
    case (Suc q)
    then have "last (retrain_epochs (calls s)) = (e div n) * n"
      using re by (simp add: last_map)
    moreover have "retrain_epochs (calls s) \<noteq> []" using re Suc by simp
    ultimately show ?thesis using split by simp
  qed
  show ?thesis
    using run len apl le since epoch_body_flush [of env a]
    by (auto simp: e_def n_def)
qed

text \<open>The hypotheses hold for the small instance, run for five epochs with interval five.\<close>

theorem buffer_length_cycle_witness:
  "fixed_architecture toy \<and> 1 \<le> sb \<lparr>ep = 5, batch = 100, sb = 5\<rparr> \<and>
   (\<exists>s. training_loop toy \<lparr>ep = 5, batch = 100, sb = 5\<rparr> = Inr s \<and>
      length (input_data_surrogate_training s) = 5 \<and>
      length (input_data_surrogate_training s) \<le> 5)"
  using buffer_length_cycle [OF toy_fixed_architecture, of "\<lparr>ep = 5, batch = 100, sb = 5\<rparr>"]
  by (simp add: toy_fixed_architecture) blast

text \<open>
  Claim C2, as the code has it. In a run with interval 5 and 12 epochs, the surrogate model
  is retrained exactly twice, in the 6th and in the 12th epoch (each time after five
  standard epochs), and at the end of epoch 12 the observation buffer is empty.
\<close>

theorem interval_5_epochs_12:
  assumes "fixed_architecture env" "ep a = 12" "sb a = 5"
  shows "\<exists>s. training_loop env a = Inr s \<and>
           retrain_epochs (calls s) = [6, 12] \<and>
           length (loss_surrogate_training s) = 2 \<and>
           input_data_surrogate_training s = [] \<and> APLs s = []"
proof -
  have N: "1 \<le> sb a" using assms(3) by simp
  from epochs_closed_form [OF assms(1) N, of 12] obtain s where
    run: "training_loop env a = Inr s" and inv: "loop_inv env a (12 div 6) (12 mod 6) s"
    using assms(2,3) by (auto simp: training_loop_def)
  have "[0..<2] = [0, Suc 0]" by (simp add: upt_rec)
  with inv have "retrain_epochs (calls s) = [6, 12]"
    "length (loss_surrogate_training s) = 2"
    "input_data_surrogate_training s = []" "APLs s = []"
    using assms(3) by (simp_all add: loop_inv_def)
  with run show ?thesis by simp
qed

text \<open>The small instance satisfies the hypotheses.\<close>

theorem interval_5_epochs_12_witness:
  "fixed_architecture toy \<and> ep \<lparr>ep = 12, batch = 100, sb = 5\<rparr> = 12 \<and>
   sb \<lparr>ep = 12, batch = 100, sb = 5\<rparr> = 5 \<and>
   (\<exists>s. training_loop toy \<lparr>ep = 12, batch = 100, sb = 5\<rparr> = Inr s \<and>
      retrain_epochs (calls s) = [6, 12] \<and> input_data_surrogate_training s = [])"
  using interval_5_epochs_12 [OF toy_fixed_architecture, of "\<lparr>ep = 12, batch = 100, sb = 5\<rparr>"]
  by (simp add: toy_fixed_architecture) blast

text \<open>
  The run itself: the buffer holds no observation after epoch 12, not two, and the
  retrainings are reported for the epochs 6 and 12, not after the epochs 5 and 10.
\<close>

theorem interval_5_epochs_12_counterexample:
  "observe buffer_length (training_loop toy \<lparr>ep = 12, batch = 100, sb = 5\<rparr>) = Inr 0 \<and>
   observe (retrain_epochs \<circ> calls) (training_loop toy \<lparr>ep = 12, batch = 100, sb = 5\<rparr>) =
     Inr [6, 12] \<and> (0::nat) \<noteq> 2"
proof -
  have "observe buffer_length (training_loop toy \<lparr>ep = 12, batch = 100, sb = 5\<rparr>) = Inr 0"
    by code_simp
  moreover have "observe (retrain_epochs \<circ> calls)
      (training_loop toy \<lparr>ep = 12, batch = 100, sb = 5\<rparr>) = Inr [6, 12]"
    by code_simp
  ultimately show ?thesis by simp
qed

text \<open>
  Claim C9. For an interval of at least one, every iteration of the epoch loop that
  completes, standard or retrain, appends exactly one entry to \<open>training_loss\<close>; the loop
  completes, the series then has \<open>num_epochs\<close> entries, and the logging loop over
  \<open>range(num_epochs)\<close> raises no \<open>IndexError\<close>.
\<close>

theorem training_loss_one_entry_per_epoch:
  assumes "fixed_architecture env" "1 \<le> sb a"
  shows "(\<forall>epoch s s'. epoch_body env a epoch s = Inr s' \<longrightarrow>
            length (training_loss s') = Suc (length (training_loss s))) \<and>
         (\<exists>s. training_loop env a = Inr s \<and>
            length (training_loss s) = nat (ep a) \<and>
            (\<exists>s'. log_training_loss a s = Inr s'))"
proof -
  define n where "n = nat (sb a) + 1"
  define e where "e = nat (ep a)"
  from epochs_closed_form [OF assms, of e] obtain s where
    run: "training_loop env a = Inr s" and inv: "loop_inv env a (e div n) (e mod n) s"
    by (auto simp: training_loop_def e_def n_def)
  have "length (training_loss s) = (e div n) * n + e mod n"
    using inv by (simp add: loop_inv_def n_def)
  then have len: "length (training_loss s) = e" by simp
  then have "\<exists>s'. log_training_loss a s = Inr s'"
    using add_scalars [of e s] by (auto simp: log_training_loss_def e_def)
  with run len show ?thesis
    using epoch_body_training_loss [of env a] by (auto simp: e_def)
qed

text \<open>The small instance, twelve epochs with interval five.\<close>

theorem training_loss_one_entry_per_epoch_witness:
  "fixed_architecture toy \<and> 1 \<le> sb \<lparr>ep = 12, batch = 100, sb = 5\<rparr> \<and>
   (\<exists>s. training_loop toy \<lparr>ep = 12, batch = 100, sb = 5\<rparr> = Inr s \<and>
      length (training_loss s) = 12 \<and>
      (\<exists>s'. log_training_loss \<lparr>ep = 12, batch = 100, sb = 5\<rparr> s = Inr s'))"
  using training_loss_one_entry_per_epoch
    [OF toy_fixed_architecture, of "\<lparr>ep = 12, batch = 100, sb = 5\<rparr>"]
  by (simp add: toy_fixed_architecture)

text \<open>
  Claim C4. The flag \<open>surrogate_model_trained\<close> starts false and the surrogate model
  absent. Between the states after \<open>i\<close> and after \<open>j \<ge> i\<close> epochs of a run, a true flag
  stays true and a present surrogate model stays present; so the flag goes from false to
  true in at most one epoch of the run.
\<close>

theorem surrogate_flag_monotone:
  "\<not> surrogate_model_trained (initial env a) \<and> surrogate_model (initial env a) = None \<and>
   (\<forall>i j si sj. i \<le> j \<longrightarrow> epochs env a i (initial env a) = Inr si \<longrightarrow>
      epochs env a j (initial env a) = Inr sj \<longrightarrow>
      (surrogate_model_trained si \<longrightarrow> surrogate_model_trained sj) \<and>
      (surrogate_model si \<noteq> None \<longrightarrow> surrogate_model sj \<noteq> None)) \<and>
   (\<forall>i j si si' sj sj'.
      epochs env a i (initial env a) = Inr si \<longrightarrow>
      epochs env a (Suc i) (initial env a) = Inr si' \<longrightarrow>
      epochs env a j (initial env a) = Inr sj \<longrightarrow>
      epochs env a (Suc j) (initial env a) = Inr sj' \<longrightarrow>
      \<not> surrogate_model_trained si \<longrightarrow> surrogate_model_trained si' \<longrightarrow>
      \<not> surrogate_model_trained sj \<longrightarrow> surrogate_model_trained sj' \<longrightarrow> i = j)"
proof -
  have mono: "(surrogate_model_trained si \<longrightarrow> surrogate_model_trained sj) \<and>
      (surrogate_model si \<noteq> None \<longrightarrow> surrogate_model sj \<noteq> None)"
    if "i \<le> j" "epochs env a i (initial env a) = Inr si"
      "epochs env a j (initial env a) = Inr sj" for i j si sj
    using epoch_range_surrogate [OF epochs_le [OF that]] .
  have once: "i = j"
    if "epochs env a i (initial env a) = Inr si"
      "epochs env a (Suc i) (initial env a) = Inr si'"
      "epochs env a j (initial env a) = Inr sj"
      "epochs env a (Suc j) (initial env a) = Inr sj'"
      "\<not> surrogate_model_trained si" "surrogate_model_trained si'"
      "\<not> surrogate_model_trained sj" "surrogate_model_trained sj'"
    for i j si si' sj sj'
  proof (rule ccontr)
    assume "i \<noteq> j"
    then consider "Suc i \<le> j" | "Suc j \<le> i" by linarith
    then show False
    proof cases
      case 1
      from mono [OF 1 that(2) that(3)] that(6,7) show False by simp
    next
      case 2
      from mono [OF 2 that(4) that(1)] that(8,5) show False by simp
    qed
  qed
  have init: "\<not> surrogate_model_trained (initial env a)" "surrogate_model (initial env a) = None"
    by (simp_all add: initial_def)
  show ?thesis
  proof (intro conjI allI impI)
    show "\<not> surrogate_model_trained (initial env a)" by (rule init)
    show "surrogate_model (initial env a) = None" by (rule init)
  next
    fix i j si sj
    assume "i \<le> j" "epochs env a i (initial env a) = Inr si"
      "epochs env a j (initial env a) = Inr sj" "surrogate_model_trained si"
    then show "surrogate_model_trained sj" using mono by blast
  next
    fix i j si sj
    assume "i \<le> j" "epochs env a i (initial env a) = Inr si"
      "epochs env a j (initial env a) = Inr sj" "surrogate_model si \<noteq> None"
    then show "surrogate_model sj \<noteq> None" using mono by blast
  next
    fix i j si si' sj sj'
    assume "epochs env a i (initial env a) = Inr si"
      "epochs env a (Suc i) (initial env a) = Inr si'"
      "epochs env a j (initial env a) = Inr sj"
      "epochs env a (Suc j) (initial env a) = Inr sj'"
      "\<not> surrogate_model_trained si" "surrogate_model_trained si'"
      "\<not> surrogate_model_trained sj" "surrogate_model_trained sj'"
    then show "i = j" by (rule once)
  qed
qed

text \<open>The small instance with interval five, after 6 and after 12 epochs.\<close>

theorem surrogate_flag_monotone_witness:
  "\<exists>si sj. (6::nat) \<le> 12 \<and>
     epochs toy \<lparr>ep = 12, batch = 100, sb = 5\<rparr> 6 (initial toy \<lparr>ep = 12, batch = 100, sb = 5\<rparr>) = Inr si \<and>
     epochs toy \<lparr>ep = 12, batch = 100, sb = 5\<rparr> 12 (initial toy \<lparr>ep = 12, batch = 100, sb = 5\<rparr>) = Inr sj \<and>
     surrogate_model_trained si \<and> surrogate_model_trained sj \<and> surrogate_model sj \<noteq> None"
proof -
  let ?a = "\<lparr>ep = 12, batch = 100, sb = 5\<rparr>"
  have N: "1 \<le> sb ?a" by simp
  from epochs_closed_form [OF toy_fixed_architecture N, of 6] obtain si where
    si: "epochs toy ?a 6 (initial toy ?a) = Inr si" and fi: "surrogate_model_trained si"
    "surrogate_model si \<noteq> None"
    by (auto simp: loop_inv_def)
  from epochs_closed_form [OF toy_fixed_architecture N, of 12] obtain sj where
    sj: "epochs toy ?a 12 (initial toy ?a) = Inr sj"
    by auto
  have le: "(6::nat) \<le> 12" by simp
  from surrogate_flag_monotone [of toy ?a] have
    "\<forall>i j si sj. i \<le> j \<longrightarrow> epochs toy ?a i (initial toy ?a) = Inr si \<longrightarrow>
      epochs toy ?a j (initial toy ?a) = Inr sj \<longrightarrow>
      (surrogate_model_trained si \<longrightarrow> surrogate_model_trained sj) \<and>
      (surrogate_model si \<noteq> None \<longrightarrow> surrogate_model sj \<noteq> None)"
    by (elim conjE)
  with le si sj fi have "surrogate_model_trained sj \<and> surrogate_model sj \<noteq> None"
    by blast
  with le si sj fi show ?thesis by blast
qed

lemma epoch_body_initial_nonpositive:
  assumes "sb a \<le> 0"
  shows "epoch_body env a epoch (initial env a) = Inl (RuntimeError, initial env a)"
  using assms by (simp add: epoch_body_def initial_def vstack_def)

lemma first_epoch_standard:
  assumes "fixed_architecture env" "0 < sb a"
  shows "\<exists>s. epochs env a 1 (initial env a) = Inr s \<and>
           calls s = replicate (length (data_train_loader env)) Criterion"
proof -
  have pos: "0 < input_batch_size_surrogate_training (initial env a)"
    using assms(2) by (simp add: initial_def)
  from epoch_body_standard [OF assms(1) pos, of a 0] obtain s where
    "epoch_body env a 0 (initial env a) = Inr s"
    "calls s = replicate (length (data_train_loader env)) Criterion"
    by (auto simp: initial_def)
  then show ?thesis by (simp add: epochs_def)
qed

text \<open>
  Claim C7, as the code has it. A batch size that is not positive ends the run before the
  epoch loop, with the \<open>ValueError\<close> of the \<open>DataLoader\<close>; with a positive batch size, an
  interval that is not positive and at least one epoch, the run ends in its first epoch,
  where the retrain branch stacks an empty buffer and \<open>torch.vstack\<close> raises
  \<open>RuntimeError\<close>. In both cases no training step has been executed, and the error is that
  of the library: the program has no validation of its own. An epoch count that is not
  positive is not refused: with a positive batch size the epoch loop runs no iteration and
  raises nothing. The interval 1 is not refused either: the first epoch is a standard
  epoch, which completes after a training step with the plain criterion on every batch.
\<close>

theorem startup_failures:
  "(batch a \<le> 0 \<longrightarrow> setup_and_train env a = Inl (ValueError, initial env a)) \<and>
   (0 < batch a \<and> 1 \<le> ep a \<and> sb a \<le> 0 \<longrightarrow>
      setup_and_train env a = Inl (RuntimeError, initial env a)) \<and>
   calls (initial env a) = [] \<and>
   (0 < batch a \<and> ep a \<le> 0 \<longrightarrow> setup_and_train env a = Inr (initial env a)) \<and>
   (fixed_architecture env \<and> 0 < batch a \<and> ep a = 1 \<and> sb a = 1 \<longrightarrow>
      (\<exists>s. setup_and_train env a = Inr s \<and>
         calls s = replicate (length (data_train_loader env)) Criterion))"
proof (intro conjI impI)
  assume "batch a \<le> 0"
  then show "setup_and_train env a = Inl (ValueError, initial env a)"
    by (simp add: setup_and_train_def)
next
  assume h: "0 < batch a \<and> 1 \<le> ep a \<and> sb a \<le> 0"
  then have "[0..<nat (ep a)] = 0 # [1..<nat (ep a)]"
    by (simp add: upt_rec)
  with h show "setup_and_train env a = Inl (RuntimeError, initial env a)"
    by (simp add: setup_and_train_def training_loop_def epochs_def
        epoch_body_initial_nonpositive)
next
  show "calls (initial env a) = []" by (simp add: initial_def)
next
  assume "0 < batch a \<and> ep a \<le> 0"
  then show "setup_and_train env a = Inr (initial env a)"
    by (simp add: setup_and_train_def training_loop_def epochs_def)
next
  assume h: "fixed_architecture env \<and> 0 < batch a \<and> ep a = 1 \<and> sb a = 1"
  then have "0 < sb a" by simp
  from first_epoch_standard [OF _ this, of env] h
  show "\<exists>s. setup_and_train env a = Inr s \<and>
         calls s = replicate (length (data_train_loader env)) Criterion"
    by (simp add: setup_and_train_def training_loop_def)
qed

text \<open>One run of the small instance for each of the four cases.\<close>

theorem startup_failures_witness:
  "batch \<lparr>ep = 3, batch = 0, sb = 5\<rparr> \<le> 0 \<and>
   setup_and_train toy \<lparr>ep = 3, batch = 0, sb = 5\<rparr> =
     Inl (ValueError, initial toy \<lparr>ep = 3, batch = 0, sb = 5\<rparr>) \<and>
   0 < batch \<lparr>ep = 3, batch = 100, sb = 0\<rparr> \<and> 1 \<le> ep \<lparr>ep = 3, batch = 100, sb = 0\<rparr> \<and>
   sb \<lparr>ep = 3, batch = 100, sb = 0\<rparr> \<le> 0 \<and>
   setup_and_train toy \<lparr>ep = 3, batch = 100, sb = 0\<rparr> =
     Inl (RuntimeError, initial toy \<lparr>ep = 3, batch = 100, sb = 0\<rparr>) \<and>
   0 < batch \<lparr>ep = 0, batch = 100, sb = 5\<rparr> \<and> ep \<lparr>ep = 0, batch = 100, sb = 5\<rparr> \<le> 0 \<and>
   setup_and_train toy \<lparr>ep = 0, batch = 100, sb = 5\<rparr> =
     Inr (initial toy \<lparr>ep = 0, batch = 100, sb = 5\<rparr>) \<and>
   fixed_architecture toy \<and> 0 < batch \<lparr>ep = 1, batch = 100, sb = 1\<rparr> \<and>
   ep \<lparr>ep = 1, batch = 100, sb = 1\<rparr> = 1 \<and> sb \<lparr>ep = 1, batch = 100, sb = 1\<rparr> = 1 \<and>
   (\<exists>s. setup_and_train toy \<lparr>ep = 1, batch = 100, sb = 1\<rparr> = Inr s \<and>
      calls s = [Criterion, Criterion])"
proof -
  have "length (data_train_loader toy) = 2" by (simp add: toy_def)
  then have rep: "replicate (length (data_train_loader toy)) Criterion = [Criterion, Criterion]"
    by (simp add: numeral_2_eq_2)
  from startup_failures [of "\<lparr>ep = 1, batch = 100, sb = 1\<rparr>" toy] obtain s where
    "setup_and_train toy \<lparr>ep = 1, batch = 100, sb = 1\<rparr> = Inr s"
    "calls s = replicate (length (data_train_loader toy)) Criterion"
    by (auto simp: toy_fixed_architecture)
  then have "\<exists>s. setup_and_train toy \<lparr>ep = 1, batch = 100, sb = 1\<rparr> = Inr s \<and>
      calls s = [Criterion, Criterion]"
    by (simp add: rep)
  then show ?thesis
    using startup_failures [of "\<lparr>ep = 3, batch = 0, sb = 5\<rparr>" toy]
      startup_failures [of "\<lparr>ep = 3, batch = 100, sb = 0\<rparr>" toy]
      startup_failures [of "\<lparr>ep = 0, batch = 100, sb = 5\<rparr>" toy]
    by (simp add: toy_fixed_architecture)
qed

text \<open>
  The runs themselves. With interval 1, below the minimum of the claim, the run of one
  epoch raises nothing and trains on both batches; with epoch count 0 the run raises
  nothing; with batch size 0 and with interval 0 the run ends with the error of the
  library, \<open>ValueError\<close> and \<open>RuntimeError\<close>, and there is no other error to end it with.
\<close>

theorem startup_failures_counterexample:
  "observe calls (setup_and_train toy \<lparr>ep = 1, batch = 100, sb = 1\<rparr>) =
     Inr [Criterion, Criterion] \<and>
   observe calls (setup_and_train toy \<lparr>ep = 0, batch = 100, sb = 5\<rparr>) = Inr [] \<and>
   observe calls (setup_and_train toy \<lparr>ep = 3, batch = 0, sb = 5\<rparr>) = Inl ValueError \<and>
   observe calls (setup_and_train toy \<lparr>ep = 3, batch = 100, sb = 0\<rparr>) = Inl RuntimeError"
proof -
  have "observe calls (setup_and_train toy \<lparr>ep = 1, batch = 100, sb = 1\<rparr>) =
     Inr [Criterion, Criterion]"
    by code_simp
  moreover have "observe calls (setup_and_train toy \<lparr>ep = 0, batch = 100, sb = 5\<rparr>) = Inr []"
    by code_simp
  moreover have "observe calls (setup_and_train toy \<lparr>ep = 3, batch = 0, sb = 5\<rparr>) =
     Inl ValueError"
    by code_simp
  moreover have "observe calls (setup_and_train toy \<lparr>ep = 3, batch = 100, sb = 0\<rparr>) =
     Inl RuntimeError"
    by code_simp
  ultimately show ?thesis by simp
qed

text \<open>
  Claim C3 says that the tree-regularised loss is never called while the flag
  \<open>surrogate_model_trained\<close> is false. In a run of 3 epochs with interval 5 no retraining
  happens, the flag is false at the end, and the test phase calls the tree-regularised
  criterion for each of its three batches with the surrogate model \<open>None\<close>.
\<close>

theorem test_phase_tree_loss_without_surrogate:
  "observe surrogate_model_trained (main toy \<lparr>ep = 3, batch = 100, sb = 5\<rparr>) = Inr False \<and>
   observe (tree_loss_calls \<circ> calls) (main toy \<lparr>ep = 3, batch = 100, sb = 5\<rparr>) =
     Inr [None, None, None]"
proof -
  have "observe surrogate_model_trained (main toy \<lparr>ep = 3, batch = 100, sb = 5\<rparr>) = Inr False"
    by code_simp
  moreover have "observe (tree_loss_calls \<circ> calls) (main toy \<lparr>ep = 3, batch = 100, sb = 5\<rparr>) =
     Inr [None, None, None]"
    by code_simp
  ultimately show ?thesis by simp
qed

text \<open>
  The training loop itself is guarded: it never gives an absent surrogate model to the
  tree-regularised criterion.
\<close>

lemma training_loop_tree_loss_guarded:
  assumes "fixed_architecture env" "1 \<le> sb a"
  shows "\<exists>s. training_loop env a = Inr s \<and> None \<notin> set (tree_loss_calls (calls s)) \<and>
           (surrogate_model_trained s \<longleftrightarrow> surrogate_model s \<noteq> None)"
  using epochs_closed_form [OF assms, of "nat (ep a)"]
  by (auto simp: training_loop_def loop_inv_def)

section \<open>Properties of pruning, flattening and augmentation\<close>

lemma score_loop_returns:
  assumes "\<forall>i<length as. cross_val_score sk (k + i) (as ! i) X y = Inr (score (k + i))"
  shows "score_loop sk X y k as acc = Inr (acc @ map score [k..<k + length as])"
  using assms
proof (induction as arbitrary: k acc)
  case Nil
  show ?case by simp
next
  case (Cons a as)
  from Cons.prems have first: "cross_val_score sk k a X y = Inr (score k)"
    by (metis add.right_neutral length_greater_0_conv list.distinct(1) nth_Cons_0)
  have rest: "\<forall>i<length as. cross_val_score sk (Suc k + i) (as ! i) X y = Inr (score (Suc k + i))"
  proof (intro allI impI)
    fix i assume "i < length as"
    then have "Suc i < length (a # as)" by simp
    with Cons.prems have "cross_val_score sk (k + Suc i) ((a # as) ! Suc i) X y = Inr (score (k + Suc i))"
      by blast
    then show "cross_val_score sk (Suc k + i) (as ! i) X y = Inr (score (Suc k + i))" by simp
  qed
  have e: "k + length (a # as) = Suc k + length as" by simp
  have upt: "[k..<k + length (a # as)] = k # [Suc k..<Suc k + length as]"
    unfolding e by (rule upt_conv_Cons) simp
  from Cons.IH [OF rest, of "acc @ [score k]"] first show ?case
    unfolding upt by simp
qed

lemma score_loop_few_rows:
  assumes "length X < 5" "as \<noteq> []"
  shows "score_loop sk X y k as acc = Inl ValueError"
  using assms by (cases as) (simp_all add: cross_val_score_def)

lemma sum_list_map_upt: "sum_list (map f [0..<n]) = (\<Sum>i<n. f i)"
  by (simp add: interv_sum_list_conv_sum_set_nat atLeast0LessThan)

lemma set_selected:
  assumes "length ms = length as"
  shows "set (map fst (filter (\<lambda>(a, m). m \<le> t) (zip as ms))) =
           {as ! i | i. i < length as \<and> ms ! i \<le> t}"
  using assms by (auto simp: set_zip image_iff) force

text \<open>
  Claim C10, as the code has it. \<open>post_pruning\<close> raises what
  \<open>cost_complexity_pruning_path\<close> raises. When that call returns a path with at most one
  alpha, so that none is left after dropping the last, \<open>post_pruning\<close> returns 0 and calls
  nothing else. When the path has more alphas and the dataset fewer than five rows,
  \<open>post_pruning\<close> raises the \<open>ValueError\<close> of \<open>cross_val_score\<close>. When the path has more
  alphas and the call of \<open>cross_val_score\<close> for each candidate \<open>i\<close> (each alpha but the
  last) returns the scores \<open>score i\<close>, let the error of a candidate be the negated mean
  of its scores, and the threshold the least error plus the standard deviation of the
  errors of all candidates (the square root of the mean squared distance to their mean):
  \<open>post_pruning\<close> returns an alpha of a candidate whose error is at most the threshold,
  and the largest such alpha.
\<close>

theorem post_pruning_one_standard_error:
  "(cost_complexity_pruning_path sk X y = Inl e \<longrightarrow> post_pruning sk X y = Inl e) \<and>
   (cost_complexity_pruning_path sk X y = Inr path \<longrightarrow>
      (length path \<le> 1 \<longrightarrow> post_pruning sk X y = Inr 0) \<and>
      (1 < length path \<and> length X < 5 \<longrightarrow> post_pruning sk X y = Inl ValueError) \<and>
      (1 < length path \<and>
       (\<forall>i<length path - 1. cross_val_score sk i (path ! i) X y = Inr (score i)) \<longrightarrow>
         (let n = length path - 1;
              mse = (\<lambda>i. - (sum_list (score i) / real (length (score i))));
              mean = (\<Sum>i<n. mse i) / real n;
              std = sqrt ((\<Sum>i<n. (mse i - mean)\<^sup>2) / real n);
              t = Min (mse ` {..<n}) + std
          in \<exists>a. post_pruning sk X y = Inr a \<and>
               (\<exists>i<n. a = path ! i \<and> mse i \<le> t) \<and>
               (\<forall>i<n. mse i \<le> t \<longrightarrow> path ! i \<le> a))))"
proof (intro conjI impI)
  assume "cost_complexity_pruning_path sk X y = Inl e"
  then show "post_pruning sk X y = Inl e" by (simp add: post_pruning_def)
next
  assume "cost_complexity_pruning_path sk X y = Inr path" "length path \<le> 1"
  moreover from this have "butlast path = []" by (cases path) auto
  ultimately show "post_pruning sk X y = Inr 0" by (simp add: post_pruning_def)
next
  assume p: "cost_complexity_pruning_path sk X y = Inr path"
    and h: "1 < length path \<and> length X < 5"
  then have "butlast path \<noteq> []" by (cases path) auto
  with p h show "post_pruning sk X y = Inl ValueError"
    by (simp add: post_pruning_def score_loop_few_rows)
next
  assume p: "cost_complexity_pruning_path sk X y = Inr path"
    and h: "1 < length path \<and>
       (\<forall>i<length path - 1. cross_val_score sk i (path ! i) X y = Inr (score i))"
  define as where "as = butlast path"
  define n where "n = length path - 1"
  define mse where "mse = (\<lambda>i. - (sum_list (score i) / real (length (score i))))"
  define mean where "mean = (\<Sum>i<n. mse i) / real n"
  define std where "std = sqrt ((\<Sum>i<n. (mse i - mean)\<^sup>2) / real n)"
  define t where "t = Min (mse ` {..<n}) + std"
  define ms where "ms = map mse [0..<n]"
  define sel where "sel = map fst (filter (\<lambda>(a, m). m \<le> t) (zip as ms))"
  have len: "length as = n" by (simp add: as_def n_def)
  have npos: "0 < n" using h by (simp add: n_def)
  have ne: "as \<noteq> []" using len npos by auto
  have nth_as: "as ! i = path ! i" if "i < n" for i
    using that by (simp add: as_def n_def nth_butlast)
  have calls: "\<forall>i<length as. cross_val_score sk (0 + i) (as ! i) X y = Inr (score (0 + i))"
    using h nth_as len by (simp add: n_def)
  have scores: "score_loop sk X y 0 as [] = Inr (map score [0..<n])"
    using score_loop_returns [OF calls, of "[]"] by (simp add: len)
  have ms_eq: "map ((\<lambda>score. - np_mean_real score) \<circ> score) [0..<n] = ms"
    by (simp add: ms_def mse_def np_mean_real_def)
  have mean_eq: "np_mean_real ms = mean"
    by (simp add: np_mean_real_def ms_def mean_def sum_list_map_upt)
  have std_eq: "np_std ms = std"
    unfolding np_std_def mean_eq
    by (simp add: np_mean_real_def ms_def std_def sum_list_map_upt comp_def)
  have min_eq: "np_min ms = Min (mse ` {..<n})"
    by (simp add: np_min_def ms_def atLeast0LessThan)
  have t_eq: "np_min ms + np_std ms = t"
    by (simp add: min_eq std_eq t_def)
  have run: "post_pruning sk X y = np_max sel"
    using p ne scores
    by (simp add: post_pruning_def Let_def as_def [symmetric] ms_eq t_eq sel_def)
  have lms: "length ms = length as" by (simp add: ms_def len)
  have S: "set sel = {as ! i | i. i < length as \<and> ms ! i \<le> t}"
    unfolding sel_def by (rule set_selected [OF lms])
  have ms_nth: "ms ! i = mse i" if "i < n" for i
    using that by (simp add: ms_def)
  have S': "set sel = {path ! i | i. i < n \<and> mse i \<le> t}"
    unfolding S len
  proof (intro set_eqI iffI)
    fix x assume "x \<in> {as ! i |i. i < n \<and> ms ! i \<le> t}"
    then obtain i where "x = as ! i" "i < n" "ms ! i \<le> t" by blast
    then have "x = path ! i \<and> i < n \<and> mse i \<le> t" using nth_as ms_nth by simp
    then show "x \<in> {path ! i |i. i < n \<and> mse i \<le> t}" by blast
  next
    fix x assume "x \<in> {path ! i |i. i < n \<and> mse i \<le> t}"
    then obtain i where "x = path ! i" "i < n" "mse i \<le> t" by blast
    then have "x = as ! i \<and> i < n \<and> ms ! i \<le> t" using nth_as ms_nth by simp
    then show "x \<in> {as ! i |i. i < n \<and> ms ! i \<le> t}" by blast
  qed
  have std_nonneg: "0 \<le> std"
    unfolding std_def by (intro real_sqrt_ge_zero divide_nonneg_nonneg sum_nonneg) auto
  have fin: "finite (mse ` {..<n})" by simp
  have "mse ` {..<n} \<noteq> {}" using npos by auto
  with fin have "Min (mse ` {..<n}) \<in> mse ` {..<n}" by (rule Min_in)
  then obtain k where k: "k < n" "mse k = Min (mse ` {..<n})" by auto
  then have "mse k \<le> t" using std_nonneg by (simp add: t_def)
  with k have "path ! k \<in> set sel" unfolding S' by auto
  then have selne: "sel \<noteq> []" by auto
  then have run': "post_pruning sk X y = Inr (Max (set sel))"
    using run by (simp add: np_max_def)
  have "Max (set sel) \<in> set sel" using selne by (intro Max_in) auto
  then obtain i where i: "i < n" "Max (set sel) = path ! i" "mse i \<le> t"
    unfolding S' by auto
  have upper: "path ! j \<le> Max (set sel)" if "j < n" "mse j \<le> t" for j
  proof -
    have "path ! j \<in> set sel" unfolding S' using that by auto
    then show ?thesis by (intro Max_ge) auto
  qed
  have "\<exists>a. post_pruning sk X y = Inr a \<and>
               (\<exists>i<n. a = path ! i \<and> mse i \<le> t) \<and>
               (\<forall>i<n. mse i \<le> t \<longrightarrow> path ! i \<le> a)"
    using run' i upper by blast
  then show "let n = length path - 1;
              mse = (\<lambda>i. - (sum_list (score i) / real (length (score i))));
              mean = (\<Sum>i<n. mse i) / real n;
              std = sqrt ((\<Sum>i<n. (mse i - mean)\<^sup>2) / real n);
              t = Min (mse ` {..<n}) + std
          in \<exists>a. post_pruning sk X y = Inr a \<and>
               (\<exists>i<n. a = path ! i \<and> mse i \<le> t) \<and>
               (\<forall>i<n. mse i \<le> t \<longrightarrow> path ! i \<le> a)"
    unfolding Let_def n_def [symmetric] mse_def [symmetric] mean_def [symmetric]
      std_def [symmetric] t_def [symmetric] .
qed

text \<open>The calls of the stand-in on the datasets used below.\<close>

lemma sk_toy_calls:
  "cost_complexity_pruning_path sk_toy [0, 1, 2, 3, 4, 5] [0, 0, 0, 1, 1, 1] =
     Inr [0, 1 / 4, 1 / 2, 3 / 4, 1]"
  "cross_val_score sk_toy 0 0 [0, 1, 2, 3, 4, 5] [0, 0, 0, 1, 1, 1] =
     Inr [- 1, - 1, - 1, - 1, - 1]"
  "cross_val_score sk_toy 1 (1 / 4) [0, 1, 2, 3, 4, 5] [0, 0, 0, 1, 1, 1] =
     Inr [- 1, - 1, - 1, - 1, - 1]"
  "cross_val_score sk_toy 2 (1 / 2) [0, 1, 2, 3, 4, 5] [0, 0, 0, 1, 1, 1] =
     Inr [- 3, - 3, - 3, - 3, - 3]"
  "cross_val_score sk_toy 3 (3 / 4) [0, 1, 2, 3, 4, 5] [0, 0, 0, 1, 1, 1] =
     Inr [- 3, - 3, - 3, - 3, - 3]"
  by (simp_all add: cost_complexity_pruning_path_def cross_val_score_def sk_toy_def)

lemma sk_toy_paths:
  "cost_complexity_pruning_path sk_toy [] [] = Inl ValueError"
  "cost_complexity_pruning_path sk_toy [0] [0] = Inr [0]"
  "cost_complexity_pruning_path sk_toy [0, 1, 2, 3] [0, 0, 1, 1] = Inr [0, 1 / 2]"
  by (simp_all add: cost_complexity_pruning_path_def sk_toy_def)

lemma all_less_4: "(\<forall>i<4. P i) \<longleftrightarrow> P 0 \<and> P 1 \<and> P 2 \<and> P (3::nat)"
  by (auto simp: eval_nat_numeral less_Suc_eq)

lemma ex_less_4: "(\<exists>i<4. P i) \<longleftrightarrow> P 0 \<or> P 1 \<or> P 2 \<or> P (3::nat)"
  by (auto simp: eval_nat_numeral less_Suc_eq)

text \<open>
  The four cases on the stand-in: no row, one row, four rows, and six rows with a path of
  five alphas. There the candidates \<open>0, 1/4, 1/2, 3/4\<close> have the errors \<open>1, 1, 3, 3\<close>,
  whose standard deviation is 1 and whose threshold is 2, and the result is \<open>1/4\<close>:
  neither the first alpha of least error nor the largest candidate.
\<close>

theorem post_pruning_one_standard_error_witness:
  "cost_complexity_pruning_path sk_toy [] [] = Inl ValueError \<and>
   post_pruning sk_toy [] [] = Inl ValueError \<and>
   cost_complexity_pruning_path sk_toy [0] [0] = Inr [0] \<and> length [0 :: real] \<le> 1 \<and>
   post_pruning sk_toy [0] [0] = Inr 0 \<and>
   cost_complexity_pruning_path sk_toy [0, 1, 2, 3] [0, 0, 1, 1] = Inr [0, 1 / 2] \<and>
   1 < length [0, 1 / 2 :: real] \<and> length [0, 1, 2, 3 :: nat] < 5 \<and>
   post_pruning sk_toy [0, 1, 2, 3] [0, 0, 1, 1] = Inl ValueError \<and>
   cost_complexity_pruning_path sk_toy [0, 1, 2, 3, 4, 5] [0, 0, 0, 1, 1, 1] =
     Inr [0, 1 / 4, 1 / 2, 3 / 4, 1] \<and>
   1 < length [0, 1 / 4, 1 / 2, 3 / 4, 1 :: real] \<and>
   cross_val_score sk_toy 0 0 [0, 1, 2, 3, 4, 5] [0, 0, 0, 1, 1, 1] =
     Inr [- 1, - 1, - 1, - 1, - 1] \<and>
   cross_val_score sk_toy 1 (1 / 4) [0, 1, 2, 3, 4, 5] [0, 0, 0, 1, 1, 1] =
     Inr [- 1, - 1, - 1, - 1, - 1] \<and>
   cross_val_score sk_toy 2 (1 / 2) [0, 1, 2, 3, 4, 5] [0, 0, 0, 1, 1, 1] =
     Inr [- 3, - 3, - 3, - 3, - 3] \<and>
   cross_val_score sk_toy 3 (3 / 4) [0, 1, 2, 3, 4, 5] [0, 0, 0, 1, 1, 1] =
     Inr [- 3, - 3, - 3, - 3, - 3] \<and>
   post_pruning sk_toy [0, 1, 2, 3, 4, 5] [0, 0, 0, 1, 1, 1] = Inr (1 / 4)"
proof -
  define score :: "nat \<Rightarrow> real list" where
    "score = (\<lambda>i. if i < 2 then [- 1, - 1, - 1, - 1, - 1] else [- 3, - 3, - 3, - 3, - 3])"
  have raise: "post_pruning sk_toy [] [] = Inl ValueError"
    using post_pruning_one_standard_error [of sk_toy "[]" "[]" ValueError "[]" score]
      sk_toy_paths(1) by simp
  have one: "post_pruning sk_toy [0] [0] = Inr 0"
    using post_pruning_one_standard_error [of sk_toy "[0]" "[0]" ValueError "[0]" score]
      sk_toy_paths(2) by simp
  have few: "post_pruning sk_toy [0, 1, 2, 3] [0, 0, 1, 1] = Inl ValueError"
    using post_pruning_one_standard_error
      [of sk_toy "[0, 1, 2, 3]" "[0, 0, 1, 1]" ValueError "[0, 1 / 2]" score]
      sk_toy_paths(3) by simp
  have l: "length [0, 1 / 4, 1 / 2, 3 / 4, 1 :: real] - 1 = 4" by simp
  have hyp: "\<forall>i<4.
      cross_val_score sk_toy i ([0, 1 / 4, 1 / 2, 3 / 4, 1] ! i) [0, 1, 2, 3, 4, 5]
        [0, 0, 0, 1, 1, 1] = Inr (score i)"
    unfolding all_less_4 using sk_toy_calls by (simp add: score_def)
  have set4: "{..<4::nat} = {0, 1, 2, 3}" by auto
  from post_pruning_one_standard_error
    [of sk_toy "[0, 1, 2, 3, 4, 5]" "[0, 0, 0, 1, 1, 1]" ValueError
      "[0, 1 / 4, 1 / 2, 3 / 4, 1]" score, unfolded l]
    sk_toy_calls(1) hyp
  have "\<exists>a. post_pruning sk_toy [0, 1, 2, 3, 4, 5] [0, 0, 0, 1, 1, 1] = Inr a \<and>
      (a = 0 \<or> a = 1 / 4) \<and> 1 / 4 \<le> a"
    by (simp add: Let_def all_less_4 ex_less_4 set4 score_def) blast
  then have rule: "post_pruning sk_toy [0, 1, 2, 3, 4, 5] [0, 0, 0, 1, 1, 1] = Inr (1 / 4)"
    by auto
  show ?thesis
    using raise one few rule sk_toy_calls sk_toy_paths by simp
qed

text \<open>
  The claim says that \<open>post_pruning\<close> returns one of the alphas whenever the path has
  more than one. For the four rows \<open>0, 1, 2, 3\<close> with the labels \<open>0, 0, 1, 1\<close> the path
  has two alphas, the candidate \<open>0\<close> is left, and \<open>cross_val_score\<close> raises for want of
  five rows.
\<close>

theorem post_pruning_few_rows_counterexample:
  "cost_complexity_pruning_path sk_toy [0, 1, 2, 3] [0, 0, 1, 1] = Inr [0, 1 / 2] \<and>
   post_pruning sk_toy [0, 1, 2, 3] [0, 0, 1, 1] = Inl ValueError"
  by (simp add: post_pruning_def cost_complexity_pruning_path_def cross_val_score_def
      sk_toy_def)

text \<open>
  Claim C6 says that the flattening keeps the parameters in the computation graph, so that
  the surrogate term of the loss contributes to their gradient. \<open>params_to_1D_vector\<close>
  flattens \<open>param.data\<close>: for a network of two parameters that require gradients, the
  vector it returns requires none and reaches no parameter, so a backward pass through the
  surrogate term ends there.
\<close>

theorem params_to_1D_vector_detached:
  "params_to_1D_vector
     [\<lparr>elems = [1, 2 :: int], requires_grad = True, grad_leaves = [0]\<rparr>,
      \<lparr>elems = [3], requires_grad = True, grad_leaves = [1]\<rparr>] =
   Inr \<lparr>elems = [1, 2, 3], requires_grad = False, grad_leaves = []\<rparr>"
  by (simp add: params_to_1D_vector_def cat_def data_def flatten_def)

text \<open>The same for every network: the flattened vector is outside the graph.\<close>

lemma params_to_1D_vector_never_attached:
  assumes "params_to_1D_vector ps = Inr v"
  shows "\<not> requires_grad v \<and> grad_leaves v = []"
proof (cases "ps = []")
  case True
  with assms show ?thesis by (simp add: params_to_1D_vector_def cat_def)
next
  case False
  from params_to_1D_vector_eq [OF False] assms show ?thesis by auto
qed

lemma evaluate_rows_result:
  "\<exists>h' as'. evaluate_rows cls X m rows (h, ps, as) = (h', ps @ rows, as @ as') \<and>
     length as' = length rows \<and> length h' = length h \<and>
     (\<forall>a\<in>set as'. \<exists>n. a = compute_APL cls n X) \<and>
     (rows \<noteq> [] \<longrightarrow> m < length h \<longrightarrow> (\<exists>n. h' ! m = vector_to_parameters cls n (last rows)))"
proof (induction rows arbitrary: h ps as)
  case Nil
  show ?case by simp
next
  case (Cons row rows)
  define h1 where "h1 = h[m := vector_to_parameters cls (h ! m) row]"
  define a1 where "a1 = compute_APL cls (h1 ! m) X"
  from Cons.IH [of h1 "ps @ [row]" "as @ [a1]"] obtain h' as' where
    r: "evaluate_rows cls X m rows (h1, ps @ [row], as @ [a1]) = (h', (ps @ [row]) @ rows, (as @ [a1]) @ as')"
    and l: "length as' = length rows" "length h' = length h1"
    and n: "\<forall>a\<in>set as'. \<exists>n. a = compute_APL cls n X"
    and v: "rows \<noteq> [] \<longrightarrow> m < length h1 \<longrightarrow> (\<exists>n. h' ! m = vector_to_parameters cls n (last rows))"
    by blast
  have last: "m < length h \<longrightarrow> (\<exists>n. h' ! m = vector_to_parameters cls n (last (row # rows)))"
  proof (cases "rows = []")
    case True
    then have "h' = h1" using r by simp
    then show ?thesis using True by (auto simp: h1_def)
  next
    case False
    then show ?thesis using v by (simp add: h1_def)
  qed
  have "evaluate_rows cls X m (row # rows) (h, ps, as) = (h', ps @ row # rows, as @ a1 # as')"
    using r by (simp add: h1_def a1_def Let_def)
  moreover have "length (a1 # as') = length (row # rows)" "length h' = length h"
    using l by (simp_all add: h1_def)
  moreover have "\<forall>a\<in>set (a1 # as'). \<exists>n. a = compute_APL cls n X"
    using n by (auto simp: a1_def)
  ultimately show ?case using last by blast
qed

lemma vstack_rows:
  assumes "ts \<noteq> []" "\<forall>t\<in>set ts. length (elems t) = d"
  shows "vstack ts = Inr (map elems ts)"
  using assms by (cases ts) (auto simp: vstack_def list_all_iff)

lemma sum_list_zip_nth:
  assumes "length w = length P"
  shows "sum_list (map (\<lambda>(wj, row). f wj row) (zip w P)) = (\<Sum>j<length P. f (w ! j) (P ! j))"
proof -
  have "sum_list (map (\<lambda>(wj, row). f wj row) (zip w P)) =
          (\<Sum>j = 0..<length (zip w P). map (\<lambda>(wj, row). f wj row) (zip w P) ! j)"
    by (simp add: sum_list_sum_nth)
  also have "\<dots> = (\<Sum>j = 0..<length P. f (w ! j) (P ! j))"
    using assms by (intro sum.cong) auto
  finally show ?thesis by (simp add: atLeast0LessThan)
qed

lemma row_matmul_nth:
  assumes "P \<noteq> []" "\<forall>row\<in>set P. length row = d" "length w = length P" "c < d"
  shows "length (row_matmul w P) = d"
    and "row_matmul w P ! c = (\<Sum>j<length P. w ! j * P ! j ! c)"
proof -
  have hd: "length (hd P) = d" using assms(1,2) by (cases P) auto
  show "length (row_matmul w P) = d" by (simp add: row_matmul_def hd)
  show "row_matmul w P ! c = (\<Sum>j<length P. w ! j * P ! j ! c)"
    using assms(4) sum_list_zip_nth [OF assms(3), of "\<lambda>wj row. wj * row ! c"]
    by (simp add: row_matmul_def hd)
qed

lemma net_spec_APL_nonneg: "0 \<le> compute_APL net_spec n X"
  by (auto simp: net_spec_def intro!: sum_list_nonneg)

text \<open>
  The loop of the Dirichlet augmentation, exactly: the vectors are loaded one after the
  other into the object given as \<open>model\<close>, and the value number \<open>i\<close> is the proxy of
  that object after the first \<open>i + 1\<close> loads.
\<close>

lemma evaluate_rows_exact:
  assumes "m < length h"
  shows "evaluate_rows cls X m rows (h, ps, as) =
     (h[m := foldl (vector_to_parameters cls) (h ! m) rows], ps @ rows,
      as @ map (\<lambda>i. compute_APL cls
                       (foldl (vector_to_parameters cls) (h ! m) (take (Suc i) rows)) X)
             [0..<length rows])"
  using assms
proof (induction rows arbitrary: h ps as)
  case Nil
  show ?case by simp
next
  case (Cons row rows)
  define h1 where "h1 = h[m := vector_to_parameters cls (h ! m) row]"
  have m1: "m < length h1" and at: "h1 ! m = vector_to_parameters cls (h ! m) row"
    using Cons.prems by (simp_all add: h1_def)
  have upd: "h1[m := n] = h[m := n]" for n by (simp add: h1_def)
  have shift: "map (\<lambda>i. compute_APL cls
                (foldl (vector_to_parameters cls) (h ! m) (take (Suc i) (row # rows))) X)
             [0..<length (row # rows)] =
        compute_APL cls (h1 ! m) X #
        map (\<lambda>i. compute_APL cls
                (foldl (vector_to_parameters cls) (h1 ! m) (take (Suc i) rows)) X)
             [0..<length rows]"
    by (simp add: upt_conv_Cons map_Suc_upt [symmetric] at del: upt_Suc)
  show ?case
    unfolding shift
    using Cons.IH [OF m1, of "ps @ [row]" "as @ [compute_APL cls (h1 ! m) X]"]
    by (simp add: Let_def h1_def [symmetric] upd at)
qed

lemma list_of_two: "length xs = 2 \<Longrightarrow> xs = [xs ! 0, xs ! 1]"
  by (cases xs; cases "tl xs") auto

text \<open>
  Claim C8. Let there be \<open>k \<ge> 1\<close> observations of the same length \<open>d\<close>, a requested
  number \<open>m \<ge> 0\<close> of samples and a reference \<open>model\<close> to a network of the store. Let
  \<open>samples\<close> be what \<open>np.random.dirichlet\<close> returns: \<open>m\<close> weight vectors, each of \<open>k\<close>
  non-negative weights of sum one, as a Dirichlet distribution over \<open>k\<close> outcomes gives
  them; and let the complexity proxy of the network class be non-negative, as the spec
  says of it. Then the Dirichlet augmentation returns exactly \<open>m\<close> vectors and \<open>m\<close>
  complexity values. The vector number \<open>i\<close> has length \<open>d\<close> and is the convex combination
  of the \<open>k\<close> observations with the weights of the sample number \<open>i\<close>; the value number
  \<open>i\<close> is the complexity proxy of the network into which that vector has just been
  loaded, after the vectors before it, and it is non-negative. The network referred to
  ends with all vectors loaded in turn.
\<close>

theorem dirichlet_augmentation:
  assumes "parameters \<noteq> []"
    and "\<forall>p\<in>set parameters. length (elems p) = d"
    and "0 \<le> num_new_samples"
    and "model' < length h"
    and "dirichlet (replicate (length parameters) 1) (nat num_new_samples) = samples"
    and "length samples = nat num_new_samples"
    and "\<forall>w\<in>set samples. length w = length parameters \<and> (\<forall>x\<in>set w. 0 \<le> x) \<and> sum_list w = 1"
    and "\<forall>n. 0 \<le> compute_APL cls n X_train"
  shows "\<exists>h' parameters_new APLs_new.
     augment_data_with_dirichlet cls dirichlet X_train parameters model' num_new_samples h =
       Inr (h', parameters_new, APLs_new) \<and>
     h' = h[model' := foldl (vector_to_parameters cls) (eval_mode cls (h ! model'))
                        parameters_new] \<and>
     length parameters_new = nat num_new_samples \<and>
     length APLs_new = nat num_new_samples \<and>
     (\<forall>i<nat num_new_samples.
        length (parameters_new ! i) = d \<and>
        length (samples ! i) = length parameters \<and>
        (\<forall>x\<in>set (samples ! i). 0 \<le> x) \<and> sum_list (samples ! i) = 1 \<and>
        (\<forall>c<d. parameters_new ! i ! c =
           (\<Sum>j<length parameters. samples ! i ! j * elems (parameters ! j) ! c)) \<and>
        APLs_new ! i =
          compute_APL cls
            (vector_to_parameters cls
               (foldl (vector_to_parameters cls) (eval_mode cls (h ! model'))
                  (take i parameters_new))
               (parameters_new ! i)) X_train \<and>
        0 \<le> APLs_new ! i)"
proof -
  define P where "P = map elems parameters"
  define h1 where "h1 = h[model' := eval_mode cls (h ! model')]"
  define M where "M = matmul samples P"
  define A where "A = map (\<lambda>i. compute_APL cls
      (foldl (vector_to_parameters cls) (h1 ! model') (take (Suc i) M)) X_train) [0..<length M]"
  have vs: "vstack parameters = Inr P"
    unfolding P_def by (rule vstack_rows [OF assms(1,2)])
  have m1: "model' < length h1" and at: "h1 ! model' = eval_mode cls (h ! model')"
    using assms(4) by (simp_all add: h1_def)
  have upd: "h1[model' := n] = h[model' := n]" for n by (simp add: h1_def)
  have run: "augment_data_with_dirichlet cls dirichlet X_train parameters model' num_new_samples h =
       Inr (h[model' := foldl (vector_to_parameters cls) (eval_mode cls (h ! model')) M], M, A)"
    using assms(3) vs evaluate_rows_exact [OF m1, of cls X_train M "[]" "[]"]
    by (simp add: augment_data_with_dirichlet_def Let_def assms(5) P_def [symmetric]
        h1_def [symmetric] M_def [symmetric] A_def upd at)
  have lenM: "length M = nat num_new_samples" by (simp add: M_def matmul_def assms(6))
  have lenA: "length A = nat num_new_samples" by (simp add: A_def lenM)
  have Pne: "P \<noteq> []" "\<forall>row\<in>set P. length row = d" "length P = length parameters"
    using assms(1,2) by (auto simp: P_def)
  have row: "length (M ! i) = d \<and>
        length (samples ! i) = length parameters \<and>
        (\<forall>x\<in>set (samples ! i). 0 \<le> x) \<and> sum_list (samples ! i) = 1 \<and>
        (\<forall>c<d. M ! i ! c =
           (\<Sum>j<length parameters. samples ! i ! j * elems (parameters ! j) ! c)) \<and>
        A ! i =
          compute_APL cls
            (vector_to_parameters cls
               (foldl (vector_to_parameters cls) (eval_mode cls (h ! model')) (take i M))
               (M ! i)) X_train \<and>
        0 \<le> A ! i"
    if i: "i < nat num_new_samples" for i
  proof -
    have mem: "samples ! i \<in> set samples" using i assms(6) by simp
    then have w: "length (samples ! i) = length parameters" "\<forall>x\<in>set (samples ! i). 0 \<le> x"
      "sum_list (samples ! i) = 1"
      using assms(7) by auto
    have Mi: "M ! i = row_matmul (samples ! i) P"
      using i assms(6) by (simp add: M_def matmul_def)
    have wP: "length (samples ! i) = length P" using w(1) Pne(3) by simp
    have len: "length (M ! i) = d"
    proof (cases "0 < d")
      case True
      from row_matmul_nth(1) [OF Pne(1,2) wP True] show ?thesis by (simp add: Mi)
    next
      case False
      then have "length (hd P) = 0" using Pne(1,2) by (cases P) auto
      with False show ?thesis by (simp add: Mi row_matmul_def)
    qed
    have comb: "\<forall>c<d. M ! i ! c =
        (\<Sum>j<length parameters. samples ! i ! j * elems (parameters ! j) ! c)"
    proof (intro allI impI)
      fix c assume c: "c < d"
      from row_matmul_nth(2) [OF Pne(1,2) wP c]
      have "M ! i ! c = (\<Sum>j<length P. samples ! i ! j * P ! j ! c)" by (simp add: Mi)
      also have "\<dots> = (\<Sum>j<length parameters. samples ! i ! j * elems (parameters ! j) ! c)"
        unfolding Pne(3) by (intro sum.cong) (auto simp: P_def)
      finally show "M ! i ! c =
        (\<Sum>j<length parameters. samples ! i ! j * elems (parameters ! j) ! c)" .
    qed
    have iM: "i < length M" using i lenM by simp
    have "A ! i = compute_APL cls
        (foldl (vector_to_parameters cls) (eval_mode cls (h ! model')) (take (Suc i) M)) X_train"
      using iM by (simp add: A_def at)
    then have apl: "A ! i = compute_APL cls
            (vector_to_parameters cls
               (foldl (vector_to_parameters cls) (eval_mode cls (h ! model')) (take i M))
               (M ! i)) X_train"
      using iM by (simp add: take_Suc_conv_app_nth)
    then have "0 \<le> A ! i" using assms(8) by simp
    with len comb w apl show ?thesis by blast
  qed
  show ?thesis
    using run lenM lenA row assms(8)
    by (intro exI [of _ "h[model' := foldl (vector_to_parameters cls)
          (eval_mode cls (h ! model')) M]"] exI [of _ M] exI [of _ A]) simp
qed

text \<open>
  Three observations of length two and two samples with different weights, on the network
  class modelled from the spec: the vectors are \<open>[3, 4]\<close> and \<open>[8, 12]\<close>, their values
  \<open>7\<close> and \<open>20\<close>.
\<close>

theorem dirichlet_augmentation_witness:
  "[vec [0, 0], vec [4, 4], vec [8, 12 :: real]] \<noteq> [] \<and>
   map (length \<circ> elems) [vec [0, 0], vec [4, 4], vec [8, 12 :: real]] = [2, 2, 2] \<and>
   (0::int) \<le> 2 \<and> (0::nat) < length [\<lparr>weights = [9, 9], training = True\<rparr>] \<and>
   length [[1 / 2, 1 / 4, 1 / 4], [0, 0, 1 :: real]] = nat 2 \<and>
   map length [[1 / 2, 1 / 4, 1 / 4], [0, 0, 1 :: real]] = [3, 3] \<and>
   map sum_list [[1 / 2, 1 / 4, 1 / 4], [0, 0, 1 :: real]] = [1, 1] \<and>
   augment_data_with_dirichlet net_spec (\<lambda>alpha m. [[1 / 2, 1 / 4, 1 / 4], [0, 0, 1]]) ()
     [vec [0, 0], vec [4, 4], vec [8, 12]] 0 2 [\<lparr>weights = [9, 9], training = True\<rparr>] =
   Inr ([\<lparr>weights = [8, 12], training = False\<rparr>], [[3, 4], [8, 12]], [7, 20])"
proof -
  let ?ps = "[vec [0, 0], vec [4, 4], vec [8, 12 :: real]]"
  let ?S = "[[1 / 2, 1 / 4, 1 / 4], [0, 0, 1 :: real]]"
  let ?h = "[\<lparr>weights = [9, 9], training = True\<rparr>]"
  have ne: "?ps \<noteq> []" by simp
  have d: "\<forall>p\<in>set ?ps. length (elems p) = 2" by (simp add: vec_def)
  have m: "(0::int) \<le> 2" by simp
  have lt: "0 < length ?h" by simp
  have dr: "(\<lambda>alpha m. ?S) (replicate (length ?ps) (1::int)) (nat 2) = ?S" by simp
  have ln: "length ?S = nat 2" by simp
  have w: "\<forall>w\<in>set ?S. length w = length ?ps \<and> (\<forall>x\<in>set w. 0 \<le> x) \<and> sum_list w = 1"
    by simp
  have apl: "\<forall>n. 0 \<le> compute_APL net_spec n ()"
    by (simp add: net_spec_APL_nonneg)
  from dirichlet_augmentation [of ?ps 2 2 0 ?h "\<lambda>alpha m. ?S" ?S net_spec "()",
      OF ne d m lt dr ln w apl]
  obtain h' ps as where
    run: "augment_data_with_dirichlet net_spec (\<lambda>alpha m. ?S) () ?ps 0 2 ?h = Inr (h', ps, as)"
    and h': "h' = ?h[0 := foldl (vector_to_parameters net_spec) (eval_mode net_spec (?h ! 0)) ps]"
    and len: "length ps = nat 2" "length as = nat 2"
    and rows: "\<forall>i<nat 2.
        length (ps ! i) = 2 \<and>
        length (?S ! i) = length ?ps \<and>
        (\<forall>x\<in>set (?S ! i). 0 \<le> x) \<and> sum_list (?S ! i) = 1 \<and>
        (\<forall>c<2. ps ! i ! c = (\<Sum>j<length ?ps. ?S ! i ! j * elems (?ps ! j) ! c)) \<and>
        as ! i =
          compute_APL net_spec
            (vector_to_parameters net_spec
               (foldl (vector_to_parameters net_spec) (eval_mode net_spec (?h ! 0))
                  (take i ps))
               (ps ! i)) () \<and>
        0 \<le> as ! i"
    by blast
  have i0: "(0::nat) < nat 2" and i1: "(1::nat) < nat 2" by simp_all
  note row0 = rows [rule_format, OF i0] and row1 = rows [rule_format, OF i1]
  have c0: "(0::nat) < 2" and c1: "(1::nat) < 2" by simp_all
  have r0: "length (ps ! 0) = 2" "ps ! 0 ! 0 = 3" "ps ! 0 ! 1 = 4"
    using row0 conjunct1 [OF conjunct2 [OF conjunct2 [OF conjunct2 [OF conjunct2 [OF row0]]]],
      rule_format, OF c0]
      conjunct1 [OF conjunct2 [OF conjunct2 [OF conjunct2 [OF conjunct2 [OF row0]]]],
      rule_format, OF c1]
    by (simp_all add: vec_def)
  have r1: "length (ps ! 1) = 2" "ps ! 1 ! 0 = 8" "ps ! 1 ! 1 = 12"
    using row1 conjunct1 [OF conjunct2 [OF conjunct2 [OF conjunct2 [OF conjunct2 [OF row1]]]],
      rule_format, OF c0]
      conjunct1 [OF conjunct2 [OF conjunct2 [OF conjunct2 [OF conjunct2 [OF row1]]]],
      rule_format, OF c1]
    by (simp_all add: vec_def)
  have p0: "ps ! 0 = [3, 4]" using list_of_two [OF r0(1)] r0 by simp
  have p1: "ps ! 1 = [8, 12]" using list_of_two [OF r1(1)] r1 by simp
  have l2: "length ps = 2" "length as = 2" using len by simp_all
  have ps: "ps = [[3, 4], [8, 12]]" using list_of_two [OF l2(1)] p0 p1 by simp
  have p1': "ps ! Suc 0 = [8, 12]" using p1 by simp
  have "as ! 0 = 7" "as ! 1 = 20"
    using row0 row1 by (simp_all add: p0 p1' net_spec_def)
  then have as: "as = [7, 20]" using list_of_two [OF l2(2)] by simp
  have "h' = [\<lparr>weights = [8, 12], training = False\<rparr>]"
    using h' by (simp add: ps net_spec_def)
  with run ps as show ?thesis by (simp add: vec_def)
qed

text \<open>
  Claim C5 says that both augmentations evaluate on a disposable copy and leave the
  parameters of the network they are given as they were. The Dirichlet augmentation makes no
  copy: called on a store whose only object is a network with the parameters \<open>[9, 9]\<close>,
  with the observations \<open>[0, 0]\<close> and \<open>[2, 4]\<close> and one sample of weights one half each,
  it leaves that object with the parameters \<open>[1, 2]\<close> of the sample.
\<close>

theorem dirichlet_overwrites_model:
  "augment_data_with_dirichlet net_spec (\<lambda>alpha m. [[1 / 2, 1 / 2]]) ()
     [vec [0, 0], vec [2, 4]] 0 1 [\<lparr>weights = [9, 9], training = True\<rparr>] =
   Inr ([\<lparr>weights = [1, 2], training = False\<rparr>], [[1, 2]], [3])"
  by (simp add: augment_data_with_dirichlet_def vstack_def vec_def matmul_def row_matmul_def
      net_spec_def Let_def upt_rec)

text \<open>
  For every network class: after a Dirichlet augmentation with at least one sample, the
  object given as \<open>model\<close> is the result of loading the last sample.
\<close>

lemma dirichlet_model_after:
  assumes "parameters \<noteq> []" "\<forall>p\<in>set parameters. length (elems p) = d"
    and "0 \<le> num_new_samples" "model' < length h"
    and "dirichlet (replicate (length parameters) 1) (nat num_new_samples) \<noteq> []"
  shows "\<exists>h' ps as n. augment_data_with_dirichlet cls dirichlet X_train parameters model'
            num_new_samples h = Inr (h', ps, as) \<and> ps \<noteq> [] \<and>
            h' ! model' = vector_to_parameters cls n (last ps)"
proof -
  define S where "S = dirichlet (replicate (length parameters) 1) (nat num_new_samples)"
  define P where "P = map elems parameters"
  define h1 where "h1 = h[model' := eval_mode cls (h ! model')]"
  have vs: "vstack parameters = Inr P"
    unfolding P_def by (rule vstack_rows [OF assms(1,2)])
  have ne: "matmul S P \<noteq> []" using assms(5) by (simp add: matmul_def S_def)
  from evaluate_rows_result [of cls X_train model' "matmul S P" h1 "[]" "[]"]
  obtain h' as' n where
    r: "evaluate_rows cls X_train model' (matmul S P) (h1, [], []) = (h', matmul S P, as')"
    and v: "h' ! model' = vector_to_parameters cls n (last (matmul S P))"
    using ne assms(4) by (auto simp: h1_def)
  have "augment_data_with_dirichlet cls dirichlet X_train parameters model' num_new_samples h =
       Inr (h', matmul S P, as')"
    using assms(3) vs r
    by (simp add: augment_data_with_dirichlet_def Let_def S_def [symmetric] h1_def [symmetric])
  with ne v show ?thesis by blast
qed

text \<open>
  The Gaussian augmentation works on deep copies, which it adds to the store: the object
  given as \<open>model\<close> is left as it was.
\<close>

lemma gaussian_round_store:
  "\<exists>x ps' as'. gaussian_round cls normal X m i (h, ps, as) = (h @ [x], ps', as')"
  by (simp add: gaussian_round_def deepcopy_def Let_def)

lemma gaussian_rounds_store:
  "\<exists>ext ps' as'. foldl (\<lambda>acc i. gaussian_round cls normal X m i acc) (h, ps, as) is =
     (h @ ext, ps', as')"
proof (induction "is" arbitrary: h ps as)
  case Nil
  show ?case by simp
next
  case (Cons i "is")
  from gaussian_round_store [of cls normal X m i h ps as] obtain x ps1 as1 where
    1: "gaussian_round cls normal X m i (h, ps, as) = (h @ [x], ps1, as1)" by blast
  from Cons.IH [of "h @ [x]" ps1 as1] obtain ext ps' as' where
    "foldl (\<lambda>acc i. gaussian_round cls normal X m i acc) (h @ [x], ps1, as1) is =
       ((h @ [x]) @ ext, ps', as')" by blast
  with 1 show ?case by simp
qed

lemma gaussian_leaves_model:
  assumes "model' < length h"
  shows "fst (augment_data_with_gaussian cls normal X_train model' size' h) ! model' = h ! model'"
proof -
  from gaussian_rounds_store [of cls normal X_train model' h "[]" "[]" "[0..<nat size']"]
  obtain ext ps' as' where
    "augment_data_with_gaussian cls normal X_train model' size' h = (h @ ext, ps', as')"
    by (auto simp: augment_data_with_gaussian_def)
  with assms show ?thesis by (simp add: nth_append)
qed

end
